theory Spec2Isabelle
  imports
    Complex_Main
    "HOL-Library.Sublist"
    "HOL-Library.Multiset"
    "HOL-Library.Char_ord"
    "HOL-Library.List_Lexorder"
    "HOL-Library.Log_Nat"
begin

section \<open>The tables of the telemarketing dashboard\<close>

text \<open>
  The dashboard of \<^verbatim>\<open>app_7.py\<close> works on pandas data frames. A cell of a frame is a
  number, a text or the missing value that the parsers put where a field is blank. A
  number is a rational: every finite integer or float of the program is one. Ages are only
  compared and truncated; the percentages are computed in 64-bit floating point, so every
  result of their arithmetic is rounded to a float.
\<close>

datatype cell = NumCell rat | StrCell string | NaN

text \<open>
  A frame has its column names in order and its rows in order; every row carries its index
  label. A table read from a file is labelled with row numbers, which
  \<^verbatim>\<open>reset_index(drop=True)\<close> renumbers from zero; a table of percentages is labelled
  with the values it counts.
\<close>

record 'i dataframe =
  columns :: "string list"
  rows :: "('i \<times> cell list) list"

text \<open>The exceptions of the program, as values.\<close>

datatype py_error =
    KeyError string
  | AttributeError string
  | UndefinedVariableError string
  | TypeError
  | ValueError
  | NameError string

definition row_data :: "'i dataframe \<Rightarrow> cell list list" where
  "row_data t = map snd (rows t)"

text \<open>The position of a column name; a frame read from a file has every name once.\<close>

fun col_index :: "string list \<Rightarrow> string \<Rightarrow> nat option" where
  "col_index [] c = None"
| "col_index (x # xs) c =
     (if x = c then Some 0 else map_option Suc (col_index xs c))"

text \<open>A line with fewer fields than the header is filled with missing values.\<close>

definition cell_at :: "cell list \<Rightarrow> nat \<Rightarrow> cell" where
  "cell_at r j = (if j < length r then r ! j else NaN)"

definition reset_index :: "nat dataframe \<Rightarrow> nat dataframe" where
  "reset_index t = t\<lparr>rows := zip [0..<length (rows t)] (map snd (rows t))\<rparr>"

section \<open>The categorical filter\<close>

text \<open>
  \<^verbatim>\<open>
  def multiselect_filter(relatorio, col, selecionados):
      if 'all' in selecionados:
          return relatorio
      else:
          return relatorio[relatorio[col].isin(selecionados)].reset_index(drop=True)
  \<close>
  The column is looked up in the second branch only, where a missing column raises
  \<^verbatim>\<open>KeyError\<close>.
\<close>

definition isin :: "cell \<Rightarrow> cell list \<Rightarrow> bool" where
  "isin v selecionados = (v \<in> set selecionados)"

definition multiselect_filter ::
    "nat dataframe \<Rightarrow> string \<Rightarrow> cell list \<Rightarrow> py_error + nat dataframe" where
  "multiselect_filter relatorio col selecionados =
     (if StrCell ''all'' \<in> set selecionados then Inr relatorio
      else (case col_index (columns relatorio) col of
              None \<Rightarrow> Inl (KeyError col)
            | Some j \<Rightarrow>
                Inr (reset_index
                  (relatorio\<lparr>rows :=
                     filter (\<lambda>(i, r). isin (cell_at r j) selecionados) (rows relatorio)\<rparr>))))"

section \<open>The filter pipeline\<close>

text \<open>
  What the user chose in the form: the two ends of the age slider and the eight lists of the
  multiselect widgets.
\<close>

record selection =
  idades :: "int \<times> int"
  jobs_selected :: "cell list"
  marital_selected :: "cell list"
  default_selected :: "cell list"
  housing_selected :: "cell list"
  loan_selected :: "cell list"
  contact_selected :: "cell list"
  month_selected :: "cell list"
  day_of_week_selected :: "cell list"

fun is_str :: "cell \<Rightarrow> bool" where
  "is_str (StrCell s) = True"
| "is_str _ = False"

fun is_num :: "cell \<Rightarrow> bool" where
  "is_num (NumCell a) = True"
| "is_num _ = False"

text \<open>
  \<^verbatim>\<open>age >= lo and age <= hi\<close> on one cell. A missing age compares false on both sides.
  A text never gets here: comparing it with a number raises.
\<close>

fun age_between :: "int \<Rightarrow> int \<Rightarrow> cell \<Rightarrow> bool" where
  "age_between lo hi (NumCell a) = (of_int lo \<le> a \<and> a \<le> of_int hi)"
| "age_between lo hi _ = False"

text \<open>
  \<^verbatim>\<open>bank.query("age >= @idades[0] and age <= @idades[1]")\<close>: the name \<^verbatim>\<open>age\<close> must be
  a column, its cells must compare with a number, and the rows kept keep their index
  labels.
\<close>

definition query_age :: "nat dataframe \<Rightarrow> int \<Rightarrow> int \<Rightarrow> py_error + nat dataframe" where
  "query_age bank lo hi =
     (case col_index (columns bank) ''age'' of
        None \<Rightarrow> Inl (UndefinedVariableError ''age'')
      | Some j \<Rightarrow>
          if list_ex (\<lambda>(i, r). is_str (cell_at r j)) (rows bank) then Inl TypeError
          else Inr (bank\<lparr>rows := filter (\<lambda>(i, r). age_between lo hi (cell_at r j)) (rows bank)\<rparr>))"

text \<open>
  \<^verbatim>\<open>df.pipe(f, col, sel)\<close> is \<^verbatim>\<open>f(df, col, sel)\<close>; an exception raised earlier in the
  chain leaves the chain.
\<close>

definition pipe ::
    "py_error + nat dataframe \<Rightarrow>
     (nat dataframe \<Rightarrow> string \<Rightarrow> cell list \<Rightarrow> py_error + nat dataframe) \<Rightarrow>
     string \<Rightarrow> cell list \<Rightarrow> py_error + nat dataframe" where
  "pipe df f col sel = (case df of Inl e \<Rightarrow> Inl e | Inr t \<Rightarrow> f t col sel)"

text \<open>
  \<^verbatim>\<open>
  bank = (bank.query("age >= @idades[0] and age <= @idades[1]")
              .pipe(multiselect_filter, 'job', jobs_selected)
              .pipe(multiselect_filter, 'marital', marital_selected)
              .pipe(multiselect_filter, 'default', default_selected)
              .pipe(multiselect_filter, 'housing', housing_selected)
              .pipe(multiselect_filter, 'loan', loan_selected)
              .pipe(multiselect_filter, 'contact', contact_selected)
              .pipe(multiselect_filter, 'month', month_selected)
              .pipe(multiselect_filter, 'day_of_week', day_of_week_selected))
  \<close>
\<close>

definition apply_filters :: "nat dataframe \<Rightarrow> selection \<Rightarrow> py_error + nat dataframe" where
  "apply_filters bank sel =
     pipe (pipe (pipe (pipe (pipe (pipe (pipe (pipe
       (query_age bank (fst (idades sel)) (snd (idades sel)))
       multiselect_filter ''job'' (jobs_selected sel))
       multiselect_filter ''marital'' (marital_selected sel))
       multiselect_filter ''default'' (default_selected sel))
       multiselect_filter ''housing'' (housing_selected sel))
       multiselect_filter ''loan'' (loan_selected sel))
       multiselect_filter ''contact'' (contact_selected sel))
       multiselect_filter ''month'' (month_selected sel))
       multiselect_filter ''day_of_week'' (day_of_week_selected sel)"

subsection \<open>The constraints of a selection, row by row\<close>

text \<open>The value a row has in a named column.\<close>

definition row_value :: "string list \<Rightarrow> cell list \<Rightarrow> string \<Rightarrow> cell" where
  "row_value cols r c = (case col_index cols c of Some j \<Rightarrow> cell_at r j | None \<Rightarrow> NaN)"

definition age_ok :: "string list \<Rightarrow> int \<times> int \<Rightarrow> cell list \<Rightarrow> bool" where
  "age_ok cols bounds r =
     (case row_value cols r ''age'' of
        NumCell a \<Rightarrow> of_int (fst bounds) \<le> a \<and> a \<le> of_int (snd bounds)
      | _ \<Rightarrow> False)"

text \<open>A categorical constraint: the selection is \<open>all\<close>, or the row's value is selected.\<close>

definition cat_ok :: "string list \<Rightarrow> string \<Rightarrow> cell list \<Rightarrow> cell list \<Rightarrow> bool" where
  "cat_ok cols c selecionados r =
     (StrCell ''all'' \<in> set selecionados \<or> row_value cols r c \<in> set selecionados)"

definition satisfies :: "string list \<Rightarrow> selection \<Rightarrow> cell list \<Rightarrow> bool" where
  "satisfies cols sel r =
     (age_ok cols (idades sel) r \<and>
      cat_ok cols ''job'' (jobs_selected sel) r \<and>
      cat_ok cols ''marital'' (marital_selected sel) r \<and>
      cat_ok cols ''default'' (default_selected sel) r \<and>
      cat_ok cols ''housing'' (housing_selected sel) r \<and>
      cat_ok cols ''loan'' (loan_selected sel) r \<and>
      cat_ok cols ''contact'' (contact_selected sel) r \<and>
      cat_ok cols ''month'' (month_selected sel) r \<and>
      cat_ok cols ''day_of_week'' (day_of_week_selected sel) r)"

text \<open>
  A table the form can be built on: the age column and the eight categorical columns are
  there, and no age is a text.
\<close>

definition filter_columns :: "string list" where
  "filter_columns =
     [''age'', ''job'', ''marital'', ''default'', ''housing'', ''loan'', ''contact'',
      ''month'', ''day_of_week'']"

definition age_is_numeric :: "nat dataframe \<Rightarrow> bool" where
  "age_is_numeric t =
     (\<not> list_ex (\<lambda>(i, r). is_str (row_value (columns t) r ''age'')) (rows t))"

definition filterable :: "nat dataframe \<Rightarrow> bool" where
  "filterable t = (list_all (\<lambda>c. c \<in> set (columns t)) filter_columns \<and> age_is_numeric t)"

text \<open>Every age is a number: none is missing, none is a text.\<close>

definition all_ages_present :: "nat dataframe \<Rightarrow> bool" where
  "all_ages_present t = list_all (\<lambda>(i, r). is_num (row_value (columns t) r ''age'')) (rows t)"

text \<open>The eight categorical selections, in the order of the pipeline.\<close>

definition categorical_selections :: "selection \<Rightarrow> cell list list" where
  "categorical_selections sel =
     [jobs_selected sel, marital_selected sel, default_selected sel, housing_selected sel,
      loan_selected sel, contact_selected sel, month_selected sel, day_of_week_selected sel]"

section \<open>The age slider\<close>

text \<open>Sequencing of steps that may raise: the first exception ends the run.\<close>

definition bindE :: "py_error + 'a \<Rightarrow> ('a \<Rightarrow> py_error + 'b) \<Rightarrow> py_error + 'b" where
  "bindE m f = (case m of Inl e \<Rightarrow> Inl e | Inr x \<Rightarrow> f x)"

text \<open>\<^verbatim>\<open>bank.job\<close>: the cells of a column, top to bottom; no such column is an error.\<close>

definition column_cells :: "'i dataframe \<Rightarrow> string \<Rightarrow> py_error + cell list" where
  "column_cells t c =
     (case col_index (columns t) c of
        None \<Rightarrow> Inl (AttributeError c)
      | Some j \<Rightarrow> Inr (map (\<lambda>(i, r). cell_at r j) (rows t)))"

text \<open>The numbers of a column; \<^verbatim>\<open>min\<close>, \<^verbatim>\<open>max\<close> and \<^verbatim>\<open>sum\<close> skip missing values.\<close>

fun num_values :: "cell list \<Rightarrow> rat list" where
  "num_values [] = []"
| "num_values (NumCell a # cs) = a # num_values cs"
| "num_values (_ # cs) = num_values cs"

text \<open>
  \<^verbatim>\<open>bank.age.min()\<close> and \<^verbatim>\<open>bank.age.max()\<close> of a numeric column: nothing when the column
  has no number in it.
\<close>

definition age_min_max :: "nat dataframe \<Rightarrow> (rat \<times> rat) option" where
  "age_min_max t =
     (case column_cells t ''age'' of
        Inl e \<Rightarrow> None
      | Inr ages \<Rightarrow>
          (case num_values ages of
             [] \<Rightarrow> None
           | a # as \<Rightarrow> Some (fold min as a, fold max as a)))"

text \<open>\<^verbatim>\<open>int(x)\<close> of a number cuts the fraction off, towards zero.\<close>

definition py_int :: "rat \<Rightarrow> int" where
  "py_int q = (if 0 \<le> q then \<lfloor>q\<rfloor> else \<lceil>q\<rceil>)"

text \<open>
  \<^verbatim>\<open>
  max_age = int(bank.age.max())
  min_age = int(bank.age.min())
  \<close>
  The two ends of the slider and its preset value. With no number in the column the
  maximum is the missing value, which \<^verbatim>\<open>int\<close> refuses. An age column that holds text
  makes either these two lines or, at the latest, the comparison of the query raise; the
  model raises here.
\<close>

definition age_bounds :: "nat dataframe \<Rightarrow> py_error + int \<times> int" where
  "age_bounds t =
     bindE (column_cells t ''age'') (\<lambda>ages.
       if list_ex is_str ages then Inl TypeError
       else (case age_min_max t of
               None \<Rightarrow> Inl ValueError
             | Some (lo, hi) \<Rightarrow> Inr (py_int lo, py_int hi)))"

text \<open>The distinct values of a list, each where it comes first.\<close>

fun uniques :: "'a list \<Rightarrow> 'a list" where
  "uniques [] = []"
| "uniques (x # xs) = x # removeAll x (uniques xs)"

text \<open>
  \<^verbatim>\<open>
  jobs_list = bank.job.unique().tolist()
  jobs_list.append('all')
  \<close>
\<close>

definition options :: "nat dataframe \<Rightarrow> string \<Rightarrow> py_error + cell list" where
  "options t c = bindE (column_cells t c) (\<lambda>cs. Inr (uniques cs @ [StrCell ''all'']))"

text \<open>
  The form, lines 66 to 139: the uploaded table is kept as \<^verbatim>\<open>bank_raw\<close>, its copy
  \<^verbatim>\<open>bank\<close> is the one that is filtered (a copy is the same value). The widgets are built
  on the columns of the table before the filter runs, so a table without one of them never
  gets to the filter; what the widgets return is the selection.
\<close>

record session =
  bank_raw :: "nat dataframe"
  bank :: "nat dataframe"

definition form_submit :: "nat dataframe \<Rightarrow> selection \<Rightarrow> py_error + session" where
  "form_submit data sel =
     bindE (age_bounds data) (\<lambda>(min_age, max_age).
     bindE (options data ''job'') (\<lambda>jobs_list.
     bindE (options data ''marital'') (\<lambda>marital_list.
     bindE (options data ''default'') (\<lambda>default_list.
     bindE (options data ''housing'') (\<lambda>housing_list.
     bindE (options data ''loan'') (\<lambda>loan_list.
     bindE (options data ''contact'') (\<lambda>contact_list.
     bindE (options data ''month'') (\<lambda>month_list.
     bindE (options data ''day_of_week'') (\<lambda>day_of_week_list.
     bindE (apply_filters data sel) (\<lambda>filtered.
       Inr \<lparr>bank_raw = data, bank = filtered\<rparr>))))))))))"

section \<open>The distribution of the outcome\<close>

definition dropna :: "cell list \<Rightarrow> cell list" where
  "dropna cs = filter (\<lambda>v. v \<noteq> NaN) cs"

text \<open>
  \<^verbatim>\<open>value_counts\<close>: missing values are dropped, every distinct value is counted, the most
  frequent comes first, equally frequent values in the order of their first occurrence.
\<close>

definition value_counts :: "cell list \<Rightarrow> (cell \<times> nat) list" where
  "value_counts cs =
     (let vals = dropna cs
      in sort_key (\<lambda>(k, n). - int n) (map (\<lambda>k. (k, count_list vals k)) (uniques vals)))"

subsection \<open>Floating-point arithmetic\<close>

text \<open>
  A float of 64 bits has a significand of 53 bits. The result of an operation is the exact
  result rounded to the nearest such number, to the one with the even significand when two
  are equally near.
\<close>

definition round_half_even :: "rat \<Rightarrow> int" where
  "round_half_even y =
     (let f = \<lfloor>y\<rfloor>; r = y - of_int f
      in if r < 1 / 2 then f else if 1 / 2 < r then f + 1 else if even f then f else f + 1)"

text \<open>The power of two at or below a positive number: \<open>2 powi binade x \<le> x < 2 powi (binade x + 1)\<close>.\<close>

definition binade :: "rat \<Rightarrow> int" where
  "binade x =
     (let (a, b) = quotient_of x; k = bitlen a - bitlen b
      in if 2 powi k \<le> x then k else k - 1)"

text \<open>
  Rounding to a float. The exponent is not bounded here: between \<open>2 powi (-1022)\<close> and
  \<open>2 powi 1024\<close> this is the rounding of the machine, and the quotient of two counts of a
  table and its hundredfold lie there.
\<close>

definition float64 :: "rat \<Rightarrow> rat" where
  "float64 x =
     (if x = 0 then 0
      else let e = binade \<bar>x\<bar> - 52
           in sgn x * of_int (round_half_even (\<bar>x\<bar> / 2 powi e)) * 2 powi e)"

text \<open>The relative error of one rounding is at most \<open>1 / 2 ^ 53\<close>, in either direction.\<close>

definition ulp_lo :: rat where
  "ulp_lo = 1 - 1 / 2 ^ 53"

definition ulp_hi :: rat where
  "ulp_hi = 1 + 1 / 2 ^ 53"

subsection \<open>Counting and normalising\<close>

text \<open>
  \<^verbatim>\<open>value_counts(normalize=True)\<close> divides every count by the sum of the counts: both
  integers are converted to floats and the quotient is a float. The sum is zero only when
  there is no count to divide.
\<close>

definition value_counts_normalize :: "cell list \<Rightarrow> (cell \<times> rat) list" where
  "value_counts_normalize cs =
     (let counts = value_counts cs; total = sum_list (map snd counts)
      in map (\<lambda>(k, n). (k, float64 (float64 (of_nat n) / float64 (of_nat total)))) counts)"

text \<open>
  \<^verbatim>\<open>to_frame()\<close>: a series becomes a frame of one column, named as the series is (the
  counts of a column carry its name); the next line of the program renames it.
\<close>

definition to_frame :: "string \<Rightarrow> (cell \<times> rat) list \<Rightarrow> cell dataframe" where
  "to_frame name ser = \<lparr>columns = [name], rows = map (\<lambda>(k, p). (k, [NumCell p])) ser\<rparr>"

text \<open>\<^verbatim>\<open>* 100\<close> on a frame: a float is multiplied as a float, a text is repeated.\<close>

fun times_100_cell :: "cell \<Rightarrow> cell" where
  "times_100_cell (NumCell p) = NumCell (float64 (p * 100))"
| "times_100_cell (StrCell s) = StrCell (concat (replicate 100 s))"
| "times_100_cell NaN = NaN"

definition times_100 :: "'i dataframe \<Rightarrow> 'i dataframe" where
  "times_100 t = t\<lparr>rows := map (\<lambda>(k, r). (k, map times_100_cell r)) (rows t)\<rparr>"

text \<open>
  \<^verbatim>\<open>df.columns = ['percentage']\<close> renames the columns; the number of names must be the
  number of columns.
\<close>

definition set_columns :: "'i dataframe \<Rightarrow> string list \<Rightarrow> py_error + 'i dataframe" where
  "set_columns t names =
     (if length names = length (columns t) then Inr (t\<lparr>columns := names\<rparr>) else Inl ValueError)"

fun str_of :: "cell \<Rightarrow> string" where
  "str_of (StrCell s) = s"
| "str_of _ = []"

fun num_of :: "cell \<Rightarrow> rat" where
  "num_of (NumCell a) = a"
| "num_of _ = 0"

text \<open>
  \<^verbatim>\<open>sort_index()\<close> on the labels that \<^verbatim>\<open>value_counts\<close> leaves (none is missing): texts are
  ordered as Python orders strings, numbers by size, and a text cannot be compared with a
  number.
\<close>

definition sort_index :: "cell dataframe \<Rightarrow> py_error + cell dataframe" where
  "sort_index t =
     (if list_all (\<lambda>(k, r). is_str k) (rows t)
        then Inr (t\<lparr>rows := sort_key (\<lambda>(k, r). str_of k) (rows t)\<rparr>)
      else if list_all (\<lambda>(k, r). is_num k) (rows t)
        then Inr (t\<lparr>rows := sort_key (\<lambda>(k, r). num_of k) (rows t)\<rparr>)
      else Inl TypeError)"

text \<open>
  \<^verbatim>\<open>
  bank_target_perc = bank.y.value_counts(normalize=True).to_frame() * 100
  bank_target_perc.columns = ['percentage']
  bank_target_perc = bank_target_perc.sort_index()
  \<close>
\<close>

definition target_perc :: "nat dataframe \<Rightarrow> py_error + cell dataframe" where
  "target_perc t =
     bindE (column_cells t ''y'') (\<lambda>ys.
     bindE (set_columns (times_100 (to_frame ''y'' (value_counts_normalize ys))) [''percentage''])
       sort_index)"

text \<open>The labels of a table of percentages and its entries.\<close>

definition labels :: "cell dataframe \<Rightarrow> cell list" where
  "labels d = map fst (rows d)"

definition percentages :: "cell dataframe \<Rightarrow> cell list" where
  "percentages d = map (\<lambda>(k, r). row_value (columns d) r ''percentage'') (rows d)"

text \<open>Ascending order of labels: defined between two texts and between two numbers.\<close>

fun cell_less :: "cell \<Rightarrow> cell \<Rightarrow> bool" where
  "cell_less (NumCell a) (NumCell b) = (a < b)"
| "cell_less (StrCell a) (StrCell b) = (a < b)"
| "cell_less _ _ = False"

text \<open>The percentage of a count \<open>c\<close> among \<open>n\<close> values, as the program computes it.\<close>

definition float_percentage :: "nat \<Rightarrow> nat \<Rightarrow> rat" where
  "float_percentage c n = float64 (float64 (float64 (of_nat c) / float64 (of_nat n)) * 100)"

text \<open>The entry of a value in the table of percentages of a column.\<close>

definition perc_entry :: "cell list \<Rightarrow> cell \<Rightarrow> cell \<times> cell list" where
  "perc_entry vals k = (k, [NumCell (float_percentage (count_list vals k) (length vals))])"

section \<open>Loading and exporting\<close>

text \<open>
  \<^verbatim>\<open>
  def load_data(file_data):
      try:
          return pd.read_csv(file_data, sep=';')
      except:
          return pd.read_excel(file_data)
  \<close>
  The two parsers belong to pandas and are parameters here: each gives a table or raises.
  The bare \<^verbatim>\<open>except\<close> catches whatever the first one raises; what the second one raises
  leaves the function.
\<close>

definition load_data ::
    "('s \<Rightarrow> char \<Rightarrow> 'e + nat dataframe) \<Rightarrow> ('s \<Rightarrow> 'e + nat dataframe) \<Rightarrow> 's \<Rightarrow>
     'e + nat dataframe" where
  "load_data read_csv read_excel file_data =
     (case read_csv file_data (CHR '';'') of
        Inr t \<Rightarrow> Inr t
      | Inl e \<Rightarrow> read_excel file_data)"

text \<open>
  \<^verbatim>\<open>
  def to_excel(df):
      output = BytesIO()
      writer = pd.ExcelWriter(output, engine='xlsxwriter')
      df.to_excel(writer, index=False, sheet_name='Sheet1')
      writer.save()
      processed_data = output.getvalue()
      return processed_data
  \<close>
  The workbook writer is a parameter; with \<^verbatim>\<open>index=False\<close> it is handed the sheet name, the
  column names and the cells of the rows, not the index labels.
\<close>

definition to_excel ::
    "(string \<Rightarrow> string list \<Rightarrow> cell list list \<Rightarrow> 'b) \<Rightarrow> 'i dataframe \<Rightarrow> 'b" where
  "to_excel xlsxwriter df = xlsxwriter ''Sheet1'' (columns df) (row_data df)"

section \<open>The page\<close>

datatype graph_type = Bar | Pie

text \<open>What a run of the script puts on the page, in order.\<close>

datatype 'b event =
    Write string
  | Markdown string
  | SidebarImage string
  | SidebarWrite string
  | WriteTable "nat dataframe"
  | WriteNames "string list"
  | WritePerc "cell dataframe"
  | DownloadButton string 'b string
  | ErrorBox string
  | InColumn nat "'b event"
  | Pyplot graph_type "cell dataframe" "cell dataframe"

text \<open>\<^verbatim>\<open>df.head()\<close>: the first five rows.\<close>

definition head :: "'i dataframe \<Rightarrow> 'i dataframe" where
  "head t = t\<lparr>rows := take 5 (rows t)\<rparr>"

definition inbox_tray :: string where
  "inbox_tray = [CHR 0xF0, CHR 0x9F, CHR 0x93, CHR 0xA5]"

definition y_missing_raw :: string where
  "y_missing_raw = [CHR 0x27] @ ''y'' @ [CHR 0x27] @ '' column is missing in the raw data!''"

definition y_missing_filtered :: string where
  "y_missing_filtered =
     [CHR 0x27] @ ''y'' @ [CHR 0x27] @ '' column is missing in the filtered data!''"

text \<open>Lines 69 to 74.\<close>

definition before_filtering :: "nat dataframe \<Rightarrow> 'b event list" where
  "before_filtering raw =
     [Write ''## Before filtering'', WriteTable (head raw),
      Write ''### Columns in the dataset:'', WriteNames (columns raw)]"

text \<open>Lines 144 to 155: the preview of the filtered table and its export.\<close>

definition after_filtering ::
    "(string \<Rightarrow> string list \<Rightarrow> cell list list \<Rightarrow> 'b) \<Rightarrow> nat dataframe \<Rightarrow> 'b event list" where
  "after_filtering xlsxwriter filtered =
     [Write ''## After filtering'', WriteTable (head filtered),
      DownloadButton (inbox_tray @ '' Download filtered table in EXCEL'')
        (to_excel xlsxwriter filtered) ''bank_filtered.xlsx'',
      Markdown ''---'',
      Write ''### Columns after filtering:'', WriteNames (columns filtered)]"

text \<open>
  \<^verbatim>\<open>
  if 'y' in bank_raw.columns:
      bank_raw_target_perc = bank_raw.y.value_counts(normalize=True).to_frame() * 100
      bank_raw_target_perc.columns = ['percentage']
      bank_raw_target_perc = bank_raw_target_perc.sort_index()
      st.write('### Bank Raw Target Perc:')
      st.write(bank_raw_target_perc)
  else:
      st.error("'y' column is missing in the raw data!")
  \<close>
  The step gives what it shows and the variable \<^verbatim>\<open>bank_raw_target_perc\<close>, which stays
  unbound in the second branch.
\<close>

definition raw_perc_step ::
    "nat dataframe \<Rightarrow> py_error + ('b event list \<times> cell dataframe option)" where
  "raw_perc_step raw =
     (if ''y'' \<in> set (columns raw) then
        bindE (target_perc raw) (\<lambda>perc.
          Inr ([Write ''### Bank Raw Target Perc:'', WritePerc perc], Some perc))
      else Inr ([ErrorBox y_missing_raw], None))"

text \<open>
  \<^verbatim>\<open>
  if 'y' in bank.columns:
      try:
          bank_target_perc = bank.y.value_counts(normalize=True).to_frame() * 100
          bank_target_perc.columns = ['percentage']
          bank_target_perc = bank_target_perc.sort_index()
          st.write('### Bank Target Perc:')
          st.write(bank_target_perc)
      except KeyError as e:
          st.error(f'Error in filter: {e}')
  else:
      st.error("'y' column is missing in the filtered data!")
  \<close>
  Only a \<^verbatim>\<open>KeyError\<close> is caught. Nothing here looks at the number of rows.
\<close>

definition filtered_perc_step ::
    "nat dataframe \<Rightarrow> py_error + ('b event list \<times> cell dataframe option)" where
  "filtered_perc_step filtered =
     (if ''y'' \<in> set (columns filtered) then
        (case target_perc filtered of
           Inr perc \<Rightarrow> Inr ([Write ''### Bank Target Perc:'', WritePerc perc], Some perc)
         | Inl (KeyError k) \<Rightarrow>
             Inr ([ErrorBox (''Error in filter: '' @ [CHR 0x27] @ k @ [CHR 0x27])], None)
         | Inl e \<Rightarrow> Inl e)
      else Inr ([ErrorBox y_missing_filtered], None))"

text \<open>Reading a variable that no branch has assigned raises \<^verbatim>\<open>NameError\<close>.\<close>

definition bound :: "string \<Rightarrow> 'a option \<Rightarrow> py_error + 'a" where
  "bound name v = (case v of None \<Rightarrow> Inl (NameError name) | Some x \<Rightarrow> Inr x)"

text \<open>Lines 182 to 199: the two download buttons of the percentage tables.\<close>

definition perc_downloads ::
    "(string \<Rightarrow> string list \<Rightarrow> cell list list \<Rightarrow> 'b) \<Rightarrow> session \<Rightarrow>
     cell dataframe option \<Rightarrow> cell dataframe option \<Rightarrow> py_error + 'b event list" where
  "perc_downloads xlsxwriter s bank_raw_target_perc bank_target_perc =
     bindE
       (if ''y'' \<in> set (columns (bank_raw s)) then
          bindE (bound ''bank_raw_target_perc'' bank_raw_target_perc) (\<lambda>d.
            Inr [InColumn 1 (Write ''### Original proportion''), InColumn 1 (WritePerc d),
                 InColumn 1 (DownloadButton (inbox_tray @ '' Download'')
                   (to_excel xlsxwriter d) ''bank_raw_y.xlsx'')])
        else Inr [])
       (\<lambda>ev1.
     bindE
       (if ''y'' \<in> set (columns (bank s)) then
          bindE (bound ''bank_target_perc'' bank_target_perc) (\<lambda>d.
            Inr [InColumn 2 (Write ''### Proportion of filtered table''), InColumn 2 (WritePerc d),
                 InColumn 2 (DownloadButton (inbox_tray @ '' Download'')
                   (to_excel xlsxwriter d) ''bank_y.xlsx'')])
        else Inr [])
       (\<lambda>ev2. Inr (ev1 @ ev2 @ [Markdown ''---''])))"

text \<open>
  Lines 201 to 228: the pair of charts, drawn only when both tables have the outcome
  column. What the plotting library does with the two tables is not modelled.
\<close>

definition charts ::
    "session \<Rightarrow> graph_type \<Rightarrow> cell dataframe option \<Rightarrow> cell dataframe option \<Rightarrow>
     py_error + 'b event list" where
  "charts s graph bank_raw_target_perc bank_target_perc =
     (if ''y'' \<in> set (columns (bank_raw s)) \<and> ''y'' \<in> set (columns (bank s)) then
        bindE (bound ''bank_raw_target_perc'' bank_raw_target_perc) (\<lambda>d1.
        bindE (bound ''bank_target_perc'' bank_target_perc) (\<lambda>d2.
          Inr [Write ''## Acceptance proportion'', Pyplot graph d1 d2]))
      else Inr [])"

text \<open>Lines 144 to 228, after the form.\<close>

definition render ::
    "(string \<Rightarrow> string list \<Rightarrow> cell list list \<Rightarrow> 'b) \<Rightarrow> session \<Rightarrow> graph_type \<Rightarrow>
     py_error + 'b event list" where
  "render xlsxwriter s graph =
     bindE (raw_perc_step (bank_raw s)) (\<lambda>(ev_raw, bank_raw_target_perc).
     bindE (filtered_perc_step (bank s)) (\<lambda>(ev_filtered, bank_target_perc).
     bindE (perc_downloads xlsxwriter s bank_raw_target_perc bank_target_perc) (\<lambda>ev_downloads.
     bindE (charts s graph bank_raw_target_perc bank_target_perc) (\<lambda>ev_charts.
       Inr (after_filtering xlsxwriter (bank s) @ ev_raw @ ev_filtered @ ev_downloads
            @ ev_charts)))))"

text \<open>The body of \<^verbatim>\<open>if data_file_1 is not None\<close>, once the table is loaded.\<close>

definition dashboard ::
    "(string \<Rightarrow> string list \<Rightarrow> cell list list \<Rightarrow> 'b) \<Rightarrow> nat dataframe \<Rightarrow> selection \<Rightarrow>
     graph_type \<Rightarrow> py_error + 'b event list" where
  "dashboard xlsxwriter data sel graph =
     bindE (form_submit data sel) (\<lambda>s.
     bindE (render xlsxwriter s graph) (\<lambda>evs. Inr (before_filtering data @ evs)))"

definition page_head :: "'b event list" where
  "page_head =
     [Write ''# Telemarketing Analysis'', Markdown ''---'', SidebarImage ''Bank-Branding.jpg'',
      SidebarWrite ''## Upload the file'']"

text \<open>
  \<^verbatim>\<open>main\<close>: a run of the script on what the uploader holds. An exception that nothing
  catches ends the run; the result is then the exception.
\<close>

definition main ::
    "('s \<Rightarrow> char \<Rightarrow> py_error + nat dataframe) \<Rightarrow> ('s \<Rightarrow> py_error + nat dataframe) \<Rightarrow>
     (string \<Rightarrow> string list \<Rightarrow> cell list list \<Rightarrow> 'b) \<Rightarrow>
     's option \<Rightarrow> selection \<Rightarrow> graph_type \<Rightarrow> py_error + 'b event list" where
  "main read_csv read_excel xlsxwriter data_file_1 sel graph =
     (case data_file_1 of
        None \<Rightarrow> Inr page_head
      | Some file_data \<Rightarrow>
          bindE (load_data read_csv read_excel file_data) (\<lambda>data.
          bindE (dashboard xlsxwriter data sel graph) (\<lambda>evs. Inr (page_head @ evs))))"

section \<open>A small campaign table\<close>

definition example_columns :: "string list" where
  "example_columns =
     [''age'', ''job'', ''marital'', ''default'', ''housing'', ''loan'', ''contact'',
      ''month'', ''day_of_week'', ''y'']"

definition example_bank :: "nat dataframe" where
  "example_bank =
     \<lparr>columns = example_columns,
      rows =
        [(0, [NumCell 30, StrCell ''admin.'', StrCell ''married'', StrCell ''no'',
              StrCell ''yes'', StrCell ''no'', StrCell ''cellular'', StrCell ''may'',
              StrCell ''mon'', StrCell ''yes'']),
         (1, [NumCell 50, StrCell ''blue-collar'', StrCell ''single'', StrCell ''no'',
              StrCell ''no'', StrCell ''no'', StrCell ''telephone'', StrCell ''jun'',
              StrCell ''tue'', StrCell ''no'']),
         (2, [NumCell 41, StrCell ''technician'', StrCell ''married'', StrCell ''unknown'',
              StrCell ''yes'', StrCell ''yes'', StrCell ''cellular'', StrCell ''may'',
              StrCell ''fri'', StrCell ''no''])]\<rparr>"

definition select_all :: "int \<times> int \<Rightarrow> selection" where
  "select_all ages =
     \<lparr>idades = ages, jobs_selected = [StrCell ''all''], marital_selected = [StrCell ''all''],
      default_selected = [StrCell ''all''], housing_selected = [StrCell ''all''],
      loan_selected = [StrCell ''all''], contact_selected = [StrCell ''all''],
      month_selected = [StrCell ''all''], day_of_week_selected = [StrCell ''all'']\<rparr>"

definition example_selection :: selection where
  "example_selection =
     (select_all (25, 45))\<lparr>jobs_selected := [StrCell ''admin.'', StrCell ''technician'']\<rparr>"

text \<open>The same columns, with a row whose age field was left blank in the file.\<close>

definition example_missing_age :: "nat dataframe" where
  "example_missing_age =
     \<lparr>columns = example_columns,
      rows =
        [(0, [NumCell 30, StrCell ''admin.'', StrCell ''married'', StrCell ''no'',
              StrCell ''yes'', StrCell ''no'', StrCell ''cellular'', StrCell ''may'',
              StrCell ''mon'', StrCell ''yes'']),
         (1, [NaN, StrCell ''blue-collar'', StrCell ''single'', StrCell ''no'',
              StrCell ''no'', StrCell ''no'', StrCell ''telephone'', StrCell ''jun'',
              StrCell ''tue'', StrCell ''no'']),
         (2, [NumCell 50, StrCell ''technician'', StrCell ''married'', StrCell ''unknown'',
              StrCell ''yes'', StrCell ''yes'', StrCell ''cellular'', StrCell ''may'',
              StrCell ''fri'', StrCell ''no''])]\<rparr>"

text \<open>The table without its outcome column, and the table after a filter that keeps nothing.\<close>

definition example_no_outcome :: "nat dataframe" where
  "example_no_outcome =
     \<lparr>columns = butlast example_columns,
      rows = map (\<lambda>(i, r). (i, butlast r)) (rows example_bank)\<rparr>"

definition example_no_rows :: "nat dataframe" where
  "example_no_rows = example_bank\<lparr>rows := []\<rparr>"

text \<open>A table in which the outcome of every row is blank.\<close>

definition example_blank_outcome :: "nat dataframe" where
  "example_blank_outcome =
     \<lparr>columns = example_columns,
      rows =
        [(0, [NumCell 30, StrCell ''admin.'', StrCell ''married'', StrCell ''no'',
              StrCell ''yes'', StrCell ''no'', StrCell ''cellular'', StrCell ''may'',
              StrCell ''mon'', NaN]),
         (1, [NumCell 50, StrCell ''blue-collar'', StrCell ''single'', StrCell ''no'',
              StrCell ''no'', StrCell ''no'', StrCell ''telephone'', StrCell ''jun'',
              StrCell ''tue'', NaN])]\<rparr>"

text \<open>
  Stand-ins for the two parsers and the workbook writer, to run the loader and the page on:
  the first accepts a text that has the separator in it, the second a file that starts as a
  zip archive does, and the writer returns what it was handed.
\<close>

definition sample_read_csv :: "string \<Rightarrow> char \<Rightarrow> py_error + nat dataframe" where
  "sample_read_csv file_data sep =
     (if sep \<in> set file_data then Inr example_bank else Inl ValueError)"

definition sample_read_excel :: "string \<Rightarrow> py_error + nat dataframe" where
  "sample_read_excel file_data =
     (if take 2 file_data = ''PK'' then Inr example_no_outcome else Inl ValueError)"

definition sample_writer ::
    "string \<Rightarrow> string list \<Rightarrow> cell list list \<Rightarrow> string \<times> string list \<times> cell list list" where
  "sample_writer sheet names cells = (sheet, names, cells)"

section \<open>Properties\<close>

subsection \<open>Columns, rows and the single steps\<close>

lemma col_index_Some_iff: "(\<exists>j. col_index cols c = Some j) \<longleftrightarrow> c \<in> set cols"
  by (induction cols) auto

lemma col_index_None_iff: "col_index cols c = None \<longleftrightarrow> c \<notin> set cols"
  by (induction cols) auto

lemma row_data_reset_index: "row_data (reset_index t) = row_data t"
  by (simp add: row_data_def reset_index_def)

lemma columns_reset_index: "columns (reset_index t) = columns t"
  by (simp add: reset_index_def)

lemma map_snd_filter_rows:
  "map snd (filter (\<lambda>(i, r). P r) xs) = filter P (map snd xs)"
  by (induction xs) auto

lemma multiselect_filter_Inr:
  assumes "multiselect_filter t c s = Inr t'"
  shows "columns t' = columns t \<and> row_data t' = filter (cat_ok (columns t) c s) (row_data t)"
proof (cases "StrCell ''all'' \<in> set s")
  case True
  then have "t' = t" using assms by (simp add: multiselect_filter_def)
  moreover have "cat_ok (columns t) c s = (\<lambda>r. True)"
    using True by (simp add: cat_ok_def fun_eq_iff)
  ultimately show ?thesis by simp
next
  case False
  then obtain j where j: "col_index (columns t) c = Some j"
    and t': "t' = reset_index (t\<lparr>rows := filter (\<lambda>(i, r). isin (cell_at r j) s) (rows t)\<rparr>)"
    using assms by (auto simp: multiselect_filter_def split: option.splits)
  have "cat_ok (columns t) c s = (\<lambda>r. isin (cell_at r j) s)"
    using False j by (simp add: cat_ok_def row_value_def isin_def fun_eq_iff)
  then show ?thesis
    by (simp add: t' row_data_reset_index columns_reset_index)
       (simp add: row_data_def map_snd_filter_rows)
qed

lemma multiselect_filter_total:
  "c \<in> set (columns t) \<Longrightarrow> \<exists>t'. multiselect_filter t c s = Inr t'"
  using col_index_None_iff[of "columns t" c]
  by (auto simp: multiselect_filter_def split: option.splits)

lemma query_age_Inr:
  assumes "query_age t lo hi = Inr t'"
  shows "columns t' = columns t \<and> row_data t' = filter (age_ok (columns t) (lo, hi)) (row_data t)"
proof -
  obtain j where j: "col_index (columns t) ''age'' = Some j"
    and t': "t' = t\<lparr>rows := filter (\<lambda>(i, r). age_between lo hi (cell_at r j)) (rows t)\<rparr>"
    using assms by (auto simp: query_age_def split: option.splits if_splits)
  have "age_between lo hi v = (case v of NumCell a \<Rightarrow> of_int lo \<le> a \<and> a \<le> of_int hi | _ \<Rightarrow> False)" for v
    by (cases v) auto
  then have "age_ok (columns t) (lo, hi) = (\<lambda>r. age_between lo hi (cell_at r j))"
    using j by (simp add: age_ok_def row_value_def fun_eq_iff split: cell.splits)
  then show ?thesis
    by (simp add: t' row_data_def map_snd_filter_rows)
qed

lemma query_age_total:
  "''age'' \<in> set (columns t) \<Longrightarrow> age_is_numeric t \<Longrightarrow> \<exists>t'. query_age t lo hi = Inr t'"
  using col_index_None_iff[of "columns t" "''age''"]
  by (auto simp: query_age_def age_is_numeric_def row_value_def split: option.splits)

lemma pipe_Inr_iff: "pipe r f c s = Inr out \<longleftrightarrow> (\<exists>t. r = Inr t \<and> f t c s = Inr out)"
  by (cases r) (auto simp: pipe_def)


lemma apply_filters_Inr:
  assumes "apply_filters df sel = Inr out"
  shows "columns out = columns df \<and>
         row_data out = filter (satisfies (columns df) sel) (row_data df)"
proof -
  from assms obtain t0 t1 t2 t3 t4 t5 t6 t7 where
    q: "query_age df (fst (idades sel)) (snd (idades sel)) = Inr t0" and
    s1: "multiselect_filter t0 ''job'' (jobs_selected sel) = Inr t1" and
    s2: "multiselect_filter t1 ''marital'' (marital_selected sel) = Inr t2" and
    s3: "multiselect_filter t2 ''default'' (default_selected sel) = Inr t3" and
    s4: "multiselect_filter t3 ''housing'' (housing_selected sel) = Inr t4" and
    s5: "multiselect_filter t4 ''loan'' (loan_selected sel) = Inr t5" and
    s6: "multiselect_filter t5 ''contact'' (contact_selected sel) = Inr t6" and
    s7: "multiselect_filter t6 ''month'' (month_selected sel) = Inr t7" and
    s8: "multiselect_filter t7 ''day_of_week'' (day_of_week_selected sel) = Inr out"
    unfolding apply_filters_def pipe_Inr_iff by blast
  note q' = query_age_Inr[OF q, simplified]
  note f1 = multiselect_filter_Inr[OF s1] and f2 = multiselect_filter_Inr[OF s2]
    and f3 = multiselect_filter_Inr[OF s3] and f4 = multiselect_filter_Inr[OF s4]
    and f5 = multiselect_filter_Inr[OF s5] and f6 = multiselect_filter_Inr[OF s6]
    and f7 = multiselect_filter_Inr[OF s7] and f8 = multiselect_filter_Inr[OF s8]
  have cols: "columns out = columns df"
    using q' f1 f2 f3 f4 f5 f6 f7 f8 by simp
  have "row_data out = filter (satisfies (columns df) sel) (row_data df)"
    using q' f1 f2 f3 f4 f5 f6 f7 f8
    by (simp add: satisfies_def conj_ac cong: filter_cong)
  with cols show ?thesis by simp
qed

lemma apply_filters_total:
  assumes "filterable df"
  shows "\<exists>out. apply_filters df sel = Inr out"
proof -
  have cs: "''age'' \<in> set (columns df)" "''job'' \<in> set (columns df)"
    "''marital'' \<in> set (columns df)" "''default'' \<in> set (columns df)"
    "''housing'' \<in> set (columns df)" "''loan'' \<in> set (columns df)"
    "''contact'' \<in> set (columns df)" "''month'' \<in> set (columns df)"
    "''day_of_week'' \<in> set (columns df)" and num: "age_is_numeric df"
    using assms by (simp_all add: filterable_def filter_columns_def)
  obtain t0 where q: "query_age df (fst (idades sel)) (snd (idades sel)) = Inr t0"
    using query_age_total[OF cs(1) num] by blast
  have c0: "columns t0 = columns df" using query_age_Inr[OF q] by simp
  obtain t1 where s1: "multiselect_filter t0 ''job'' (jobs_selected sel) = Inr t1"
    using multiselect_filter_total[of "''job''" t0] cs c0 by auto
  have c1: "columns t1 = columns df" using multiselect_filter_Inr[OF s1] c0 by simp
  obtain t2 where s2: "multiselect_filter t1 ''marital'' (marital_selected sel) = Inr t2"
    using multiselect_filter_total[of "''marital''" t1] cs c1 by auto
  have c2: "columns t2 = columns df" using multiselect_filter_Inr[OF s2] c1 by simp
  obtain t3 where s3: "multiselect_filter t2 ''default'' (default_selected sel) = Inr t3"
    using multiselect_filter_total[of "''default''" t2] cs c2 by auto
  have c3: "columns t3 = columns df" using multiselect_filter_Inr[OF s3] c2 by simp
  obtain t4 where s4: "multiselect_filter t3 ''housing'' (housing_selected sel) = Inr t4"
    using multiselect_filter_total[of "''housing''" t3] cs c3 by auto
  have c4: "columns t4 = columns df" using multiselect_filter_Inr[OF s4] c3 by simp
  obtain t5 where s5: "multiselect_filter t4 ''loan'' (loan_selected sel) = Inr t5"
    using multiselect_filter_total[of "''loan''" t4] cs c4 by auto
  have c5: "columns t5 = columns df" using multiselect_filter_Inr[OF s5] c4 by simp
  obtain t6 where s6: "multiselect_filter t5 ''contact'' (contact_selected sel) = Inr t6"
    using multiselect_filter_total[of "''contact''" t5] cs c5 by auto
  have c6: "columns t6 = columns df" using multiselect_filter_Inr[OF s6] c5 by simp
  obtain t7 where s7: "multiselect_filter t6 ''month'' (month_selected sel) = Inr t7"
    using multiselect_filter_total[of "''month''" t6] cs c6 by auto
  have c7: "columns t7 = columns df" using multiselect_filter_Inr[OF s7] c6 by simp
  obtain t8 where s8: "multiselect_filter t7 ''day_of_week'' (day_of_week_selected sel) = Inr t8"
    using multiselect_filter_total[of "''day_of_week''" t7] cs c7 by auto
  show ?thesis
    unfolding apply_filters_def by (simp add: pipe_def q s1 s2 s3 s4 s5 s6 s7 s8)
qed

lemma form_submit_Inr:
  assumes "form_submit df sel = Inr s"
  shows "bank_raw s = df \<and> apply_filters df sel = Inr (bank s)"
  using assms unfolding form_submit_def bindE_def
  by (auto split: sum.splits prod.splits)

lemma cat_ok_empty: "\<not> cat_ok cols c [] r"
  by (simp add: cat_ok_def)

lemma rows_empty_iff: "row_data t = [] \<longleftrightarrow> rows t = []"
  by (simp add: row_data_def)

lemma fold_min_le: "x \<in> set (a # as) \<Longrightarrow> fold min as a \<le> (x::rat)"
  unfolding Min.set_eq_fold[symmetric] by (rule Min_le) auto

lemma fold_max_ge: "x \<in> set (a # as) \<Longrightarrow> (x::rat) \<le> fold max as a"
  unfolding Max.set_eq_fold[symmetric] by (rule Max_ge) auto

lemma num_values_mem: "NumCell a \<in> set cs \<Longrightarrow> a \<in> set (num_values cs)"
  by (induction cs rule: num_values.induct) auto

subsection \<open>The pipeline is the conjunction of its constraints\<close>

text \<open>
  Claim C1. On a table that has the nine columns of the form and no text among its ages,
  the pipeline returns a table; and whenever the pipeline returns a table, its rows are the
  rows of the input, in order, that satisfy every constraint of the selection: the age lies
  between the two ends of the slider, and for each of the eight categorical columns the
  selection holds \<open>all\<close> or holds the value of the row. So a row is in the output if and
  only if it is in the input and satisfies the conjunction.
\<close>
theorem filter_pipeline_is_conjunction:
  "(filterable df \<longrightarrow> (\<exists>out. apply_filters df sel = Inr out)) \<and>
   (\<forall>out. apply_filters df sel = Inr out \<longrightarrow>
      row_data out = filter (satisfies (columns df) sel) (row_data df) \<and>
      (\<forall>r. r \<in> set (row_data out) \<longleftrightarrow>
           r \<in> set (row_data df) \<and> satisfies (columns df) sel r))"
proof (intro conjI impI allI)
  assume "filterable df"
  then show "\<exists>out. apply_filters df sel = Inr out" by (rule apply_filters_total)
next
  fix out assume "apply_filters df sel = Inr out"
  then show "row_data out = filter (satisfies (columns df) sel) (row_data df)"
    by (simp add: apply_filters_Inr)
next
  fix out r assume "apply_filters df sel = Inr out"
  then have "row_data out = filter (satisfies (columns df) sel) (row_data df)"
    by (simp add: apply_filters_Inr)
  then show "r \<in> set (row_data out) \<longleftrightarrow> r \<in> set (row_data df) \<and> satisfies (columns df) sel r"
    by simp
qed

lemmas run_defs = apply_filters_def pipe_def query_age_def multiselect_filter_def cell_at_def
  reset_index_def isin_def example_bank_def example_columns_def select_all_def row_data_def
  example_selection_def

theorem filter_pipeline_is_conjunction_witness:
  "filterable example_bank \<and>
   apply_filters example_bank example_selection
     = Inr (example_bank\<lparr>rows := [(0, snd (rows example_bank ! 0)), (1, snd (rows example_bank ! 2))]\<rparr>) \<and>
   filter (satisfies (columns example_bank) example_selection) (row_data example_bank)
     = [snd (rows example_bank ! 0), snd (rows example_bank ! 2)]"
proof -
  have a: "filterable example_bank"
    by (simp add: filterable_def filter_columns_def age_is_numeric_def row_value_def
        cell_at_def example_bank_def example_columns_def)
  have b: "apply_filters example_bank example_selection
     = Inr (example_bank\<lparr>rows := [(0, snd (rows example_bank ! 0)), (1, snd (rows example_bank ! 2))]\<rparr>)"
    by (simp add: run_defs)
  from filter_pipeline_is_conjunction[of example_bank example_selection] b
  have "row_data (example_bank\<lparr>rows := [(0, snd (rows example_bank ! 0)), (1, snd (rows example_bank ! 2))]\<rparr>)
     = filter (satisfies (columns example_bank) example_selection) (row_data example_bank)"
    by blast
  then have "filter (satisfies (columns example_bank) example_selection) (row_data example_bank)
     = [snd (rows example_bank ! 0), snd (rows example_bank ! 2)]"
    by (simp add: row_data_def)
  with a b show ?thesis by simp
qed

subsection \<open>An empty selection\<close>

text \<open>
  Claim C3. With an empty selection list the categorical step on a column of the table
  returns the table without any row; and when one of the eight selections of the form is
  empty, the whole pipeline ends with a table of no rows and the same columns.
\<close>
theorem empty_selection_gives_no_rows:
  "(col \<in> set (columns df) \<longrightarrow> multiselect_filter df col [] = Inr (df\<lparr>rows := []\<rparr>)) \<and>
   (filterable df \<and> [] \<in> set (categorical_selections sel) \<longrightarrow>
      (\<exists>out. apply_filters df sel = Inr out \<and> rows out = [] \<and> columns out = columns df))"
proof (intro conjI impI)
  assume "col \<in> set (columns df)"
  then obtain j where "col_index (columns df) col = Some j"
    using col_index_Some_iff by blast
  then show "multiselect_filter df col [] = Inr (df\<lparr>rows := []\<rparr>)"
    by (simp add: multiselect_filter_def isin_def reset_index_def)
next
  assume h: "filterable df \<and> [] \<in> set (categorical_selections sel)"
  then obtain out where out: "apply_filters df sel = Inr out"
    using apply_filters_total by blast
  have "\<not> satisfies (columns df) sel r" for r
    using h cat_ok_empty by (auto simp: categorical_selections_def satisfies_def)
  then have "row_data out = []"
    using apply_filters_Inr[OF out] by simp
  then show "\<exists>out. apply_filters df sel = Inr out \<and> rows out = [] \<and> columns out = columns df"
    using out apply_filters_Inr[OF out] by (simp add: rows_empty_iff)
qed

theorem empty_selection_gives_no_rows_witness:
  "''job'' \<in> set (columns example_bank) \<and>
   multiselect_filter example_bank ''job'' [] = Inr (example_bank\<lparr>rows := []\<rparr>) \<and>
   filterable example_bank \<and>
   [] \<in> set (categorical_selections ((select_all (25, 45))\<lparr>month_selected := []\<rparr>)) \<and>
   apply_filters example_bank ((select_all (25, 45))\<lparr>month_selected := []\<rparr>)
     = Inr (example_bank\<lparr>rows := []\<rparr>)"
proof -
  have a: "''job'' \<in> set (columns example_bank)"
    by (simp add: example_bank_def example_columns_def)
  have b: "filterable example_bank"
    by (simp add: filterable_def filter_columns_def age_is_numeric_def row_value_def
        cell_at_def example_bank_def example_columns_def)
  have c: "[] \<in> set (categorical_selections ((select_all (25, 45))\<lparr>month_selected := []\<rparr>))"
    by (simp add: categorical_selections_def select_all_def)
  from empty_selection_gives_no_rows[of "''job''" example_bank "(select_all (25, 45))\<lparr>month_selected := []\<rparr>"] a b c
  obtain out where "multiselect_filter example_bank ''job'' [] = Inr (example_bank\<lparr>rows := []\<rparr>)"
    and "apply_filters example_bank ((select_all (25, 45))\<lparr>month_selected := []\<rparr>) = Inr out"
    and "rows out = []" and "columns out = columns example_bank"
    by blast
  moreover have "apply_filters example_bank ((select_all (25, 45))\<lparr>month_selected := []\<rparr>)
     = Inr (example_bank\<lparr>rows := []\<rparr>)"
    by (simp add: run_defs)
  ultimately show ?thesis using a b c by simp
qed

subsection \<open>The filtered table is a part of the original\<close>

text \<open>
  Claim C8. The filtered table has the columns of the original in the same order, and its
  rows are rows of the original with their cells untouched, in their original relative
  order (a subsequence: nothing added, nothing changed, only left out). After the form has
  run, \<^verbatim>\<open>bank_raw\<close> is still the table that was loaded. The index labels are not cells
  of a row: a categorical step that filters renumbers them.
\<close>
theorem filtered_is_ordered_row_subset:
  "(\<forall>out. apply_filters df sel = Inr out \<longrightarrow>
      columns out = columns df \<and> subseq (row_data out) (row_data df)) \<and>
   (\<forall>s. form_submit df sel = Inr s \<longrightarrow>
      bank_raw s = df \<and> columns (bank s) = columns df \<and>
      subseq (row_data (bank s)) (row_data df))"
proof -
  have *: "columns out = columns df \<and> subseq (row_data out) (row_data df)"
    if "apply_filters df sel = Inr out" for out
    using apply_filters_Inr[OF that] by simp
  show ?thesis using * form_submit_Inr by blast
qed

theorem filtered_is_ordered_row_subset_witness:
  "form_submit example_bank example_selection
     = Inr \<lparr>bank_raw = example_bank,
            bank = example_bank\<lparr>rows := [(0, snd (rows example_bank ! 0)), (1, snd (rows example_bank ! 2))]\<rparr>\<rparr> \<and>
   subseq [snd (rows example_bank ! 0), snd (rows example_bank ! 2)] (row_data example_bank)"
proof -
  have b: "apply_filters example_bank example_selection
     = Inr (example_bank\<lparr>rows := [(0, snd (rows example_bank ! 0)), (1, snd (rows example_bank ! 2))]\<rparr>)"
    by (simp add: run_defs)
  have c: "form_submit example_bank example_selection
     = Inr \<lparr>bank_raw = example_bank,
            bank = example_bank\<lparr>rows := [(0, snd (rows example_bank ! 0)), (1, snd (rows example_bank ! 2))]\<rparr>\<rparr>"
    unfolding form_submit_def b
    by (simp add: bindE_def age_bounds_def age_min_max_def options_def
        column_cells_def py_int_def cell_at_def example_bank_def example_columns_def)
  from filtered_is_ordered_row_subset[of example_bank example_selection] c
  have "subseq (row_data (example_bank\<lparr>rows := [(0, snd (rows example_bank ! 0)), (1, snd (rows example_bank ! 2))]\<rparr>))
      (row_data example_bank)"
    by fastforce
  then show ?thesis using c by (simp add: row_data_def)
qed

subsection \<open>The preset selection\<close>

lemma row_value_age:
  "col_index (columns t) ''age'' = Some j \<Longrightarrow> row_value (columns t) r ''age'' = cell_at r j"
  by (simp add: row_value_def)

lemma query_age_covering:
  assumes j: "col_index (columns df) ''age'' = Some j"
    and nums: "\<forall>(i, r) \<in> set (rows df). \<exists>a. cell_at r j = NumCell a \<and> of_int lo \<le> a \<and> a \<le> of_int hi"
  shows "query_age df lo hi = Inr df"
proof -
  have "\<not> list_ex (\<lambda>(i, r). is_str (cell_at r j)) (rows df)"
    using nums by (fastforce simp: list_ex_iff)
  moreover have "filter (\<lambda>(i, r). age_between lo hi (cell_at r j)) (rows df) = rows df"
    using nums by (intro filter_True) fastforce
  ultimately show ?thesis using j by (simp add: query_age_def)
qed

text \<open>
  Claim C2, as amended. On a table whose age cells are all numbers (none missing, none a
  text), if the two ends of the age range are the smallest and the largest age of the table
  and every categorical selection holds \<open>all\<close>, the pipeline returns the table it was
  given: same columns, same rows, same index labels. That range is then also the preset
  value of the slider.
\<close>
theorem default_selection_is_identity:
  assumes "all_ages_present df"
    and "age_min_max df = Some (of_int lo, of_int hi)"
    and "idades sel = (lo, hi)"
    and "list_all (\<lambda>s. StrCell ''all'' \<in> set s) (categorical_selections sel)"
  shows "apply_filters df sel = Inr df \<and> age_bounds df = Inr (lo, hi)"
proof -
  from assms(2) obtain j where j: "col_index (columns df) ''age'' = Some j"
    by (auto simp: age_min_max_def column_cells_def split: option.splits)
  have "\<not> list_ex is_str (map (\<lambda>(i, r). cell_at r j) (rows df))"
  proof -
    have "\<not> is_str (cell_at r j)" if "(i, r) \<in> set (rows df)" for i r
    proof -
      from assms(1) that have "is_num (cell_at r j)"
        by (auto simp: all_ages_present_def list_all_iff row_value_age[OF j])
      then show ?thesis by (cases "cell_at r j") auto
    qed
    then show ?thesis by (auto simp: list_ex_iff)
  qed
  then have preset: "age_bounds df = Inr (lo, hi)"
    using j assms(2) by (simp add: age_bounds_def bindE_def column_cells_def py_int_def)
  define ages where "ages = map (\<lambda>(i, r). cell_at r j) (rows df)"
  from assms(2) j obtain a as where nv: "num_values ages = a # as"
    and lo: "rat_of_int lo = fold min as a" and hi: "rat_of_int hi = fold max as a"
    by (auto simp: age_min_max_def column_cells_def ages_def split: list.splits)
  have "\<exists>a. cell_at r j = NumCell a \<and> of_int lo \<le> a \<and> a \<le> of_int hi"
    if "(i, r) \<in> set (rows df)" for i r
  proof -
    from assms(1) that have "is_num (cell_at r j)"
      by (auto simp: all_ages_present_def list_all_iff row_value_age[OF j])
    then obtain x where x: "cell_at r j = NumCell x" by (cases "cell_at r j") auto
    have "NumCell x \<in> set ages" using that x by (force simp: ages_def)
    then have "x \<in> set (a # as)" using num_values_mem nv by metis
    then show ?thesis using x lo hi fold_min_le fold_max_ge by metis
  qed
  then have q: "query_age df lo hi = Inr df"
    using query_age_covering[OF j] by blast
  have "apply_filters df sel = Inr df"
    using assms(3,4) q
    by (simp add: apply_filters_def pipe_def multiselect_filter_def categorical_selections_def)
  with preset show ?thesis by simp
qed

theorem default_selection_is_identity_witness:
  "all_ages_present example_bank \<and>
   age_min_max example_bank = Some (of_int 30, of_int 50) \<and>
   idades (select_all (30, 50)) = (30, 50) \<and>
   list_all (\<lambda>s. StrCell ''all'' \<in> set s) (categorical_selections (select_all (30, 50))) \<and>
   apply_filters example_bank (select_all (30, 50)) = Inr example_bank \<and>
   age_bounds example_bank = Inr (30, 50)"
proof -
  have a: "all_ages_present example_bank"
    by (simp add: all_ages_present_def row_value_def cell_at_def example_bank_def
        example_columns_def)
  have b: "age_min_max example_bank = Some (of_int 30, of_int 50)"
    by (simp add: age_min_max_def column_cells_def cell_at_def example_bank_def
        example_columns_def)
  have c: "idades (select_all (30, 50)) = (30, 50)"
    by (simp add: select_all_def)
  have d: "list_all (\<lambda>s. StrCell ''all'' \<in> set s) (categorical_selections (select_all (30, 50)))"
    by (simp add: categorical_selections_def select_all_def)
  from default_selection_is_identity[OF a b c d] a b c d show ?thesis by simp
qed

text \<open>
  Without the condition on the ages the law fails: a row whose age is missing is compared
  false with both ends of the range and is left out, although the range is the observed one
  and every selection is \<open>all\<close>.
\<close>

theorem default_selection_drops_missing_age:
  "age_min_max example_missing_age = Some (of_int 30, of_int 50) \<and>
   age_bounds example_missing_age = Inr (30, 50) \<and>
   list_all (\<lambda>s. StrCell ''all'' \<in> set s) (categorical_selections (select_all (30, 50))) \<and>
   apply_filters example_missing_age (select_all (30, 50))
     = Inr (example_missing_age\<lparr>rows :=
         [rows example_missing_age ! 0, rows example_missing_age ! 2]\<rparr>) \<and>
   apply_filters example_missing_age (select_all (30, 50)) \<noteq> Inr example_missing_age"
  by (simp add: age_min_max_def age_bounds_def bindE_def py_int_def column_cells_def
      apply_filters_def pipe_def query_age_def multiselect_filter_def cell_at_def
      select_all_def categorical_selections_def example_missing_age_def example_columns_def)


subsection \<open>Loading\<close>

text \<open>
  Claim C6. The loader runs the delimited-text parser with the separator \<open>;\<close> first and
  returns its table when there is one; when that parser raises, whatever it raises, the
  loader is the spreadsheet parser; the loader fails exactly when both fail, with what the
  spreadsheet parser raised, and then the run of the page ends with that failure and shows
  no table.
\<close>
theorem load_data_csv_then_excel:
  "(\<forall>t. read_csv file_data (CHR '';'') = Inr t \<longrightarrow>
        load_data read_csv read_excel file_data = Inr t) \<and>
   (\<forall>e. read_csv file_data (CHR '';'') = Inl e \<longrightarrow>
        load_data read_csv read_excel file_data = read_excel file_data) \<and>
   (\<forall>e. load_data read_csv read_excel file_data = Inl e \<longleftrightarrow>
        (\<exists>e1. read_csv file_data (CHR '';'') = Inl e1) \<and> read_excel file_data = Inl e) \<and>
   (\<forall>e. load_data read_csv read_excel file_data = Inl e \<longrightarrow>
        main read_csv read_excel xlsxwriter (Some file_data) sel graph = Inl e)"
  by (auto simp: load_data_def main_def bindE_def split: sum.splits)

theorem load_data_csv_then_excel_witness:
  "sample_read_csv ''age;job'' (CHR '';'') = Inr example_bank \<and>
   load_data sample_read_csv sample_read_excel ''age;job'' = Inr example_bank \<and>
   sample_read_csv ''PK34'' (CHR '';'') = Inl ValueError \<and>
   load_data sample_read_csv sample_read_excel ''PK34'' = Inr example_no_outcome \<and>
   sample_read_excel ''garbage'' = Inl ValueError \<and>
   load_data sample_read_csv sample_read_excel ''garbage'' = Inl ValueError \<and>
   main sample_read_csv sample_read_excel sample_writer (Some ''garbage'') (select_all (30, 50)) Bar
     = Inl ValueError"
proof -
  have a: "sample_read_csv ''age;job'' (CHR '';'') = Inr example_bank"
    by (simp add: sample_read_csv_def)
  have b: "sample_read_csv ''PK34'' (CHR '';'') = Inl ValueError"
    by (simp add: sample_read_csv_def)
  have c: "sample_read_excel ''PK34'' = Inr example_no_outcome"
    by (simp add: sample_read_excel_def)
  have d: "sample_read_csv ''garbage'' (CHR '';'') = Inl ValueError"
    by (simp add: sample_read_csv_def)
  have e: "sample_read_excel ''garbage'' = Inl ValueError"
    by (simp add: sample_read_excel_def)
  have 1: "load_data sample_read_csv sample_read_excel ''age;job'' = Inr example_bank"
    using load_data_csv_then_excel[of sample_read_csv "''age;job''" sample_read_excel] a
    by blast
  have 2: "load_data sample_read_csv sample_read_excel ''PK34'' = Inr example_no_outcome"
    using load_data_csv_then_excel[of sample_read_csv "''PK34''" sample_read_excel] b c
    by metis
  have 3: "load_data sample_read_csv sample_read_excel ''garbage'' = Inl ValueError"
    using load_data_csv_then_excel[of sample_read_csv "''garbage''" sample_read_excel] d e
    by metis
  have 4: "main sample_read_csv sample_read_excel sample_writer (Some ''garbage'')
      (select_all (30, 50)) Bar = Inl ValueError"
    using load_data_csv_then_excel[of sample_read_csv "''garbage''" sample_read_excel
        sample_writer "select_all (30, 50)" Bar] 3
    by blast
  from a b e 1 2 3 4 show ?thesis by simp
qed

subsection \<open>Counting values and sorting labels\<close>

lemma set_uniques: "set (uniques xs) = set xs"
  by (induction xs) auto

lemma distinct_uniques: "distinct (uniques xs)"
  by (induction xs) (auto simp: distinct_removeAll)

lemma sum_list_mset_cong:
  "mset xs = mset ys \<Longrightarrow> sum_list (map f xs) = (sum_list (map f ys) :: 'a :: comm_monoid_add)"
  by (metis mset_map sum_mset_sum_list)

lemma sum_counts_uniques: "sum_list (map (count_list xs) (uniques xs)) = length xs"
proof -
  have "sum_list (map (count_list xs) (uniques xs)) = sum (count_list xs) (set (uniques xs))"
    by (rule sum_list_distinct_conv_sum_set[OF distinct_uniques])
  also have "\<dots> = length xs"
    by (simp add: set_uniques sum_count_set)
  finally show ?thesis .
qed

text \<open>The counts of value_counts: one entry per distinct present value.\<close>

lemma mset_value_counts:
  "mset (value_counts cs) =
     mset (map (\<lambda>k. (k, count_list (dropna cs) k)) (uniques (dropna cs)))"
  by (simp add: value_counts_def Let_def)

lemma total_value_counts: "sum_list (map snd (value_counts cs)) = length (dropna cs)"
proof -
  have "sum_list (map snd (value_counts cs))
      = sum_list (map snd (map (\<lambda>k. (k, count_list (dropna cs) k)) (uniques (dropna cs))))"
    by (rule sum_list_mset_cong[OF mset_value_counts])
  also have "\<dots> = sum_list (map (count_list (dropna cs)) (uniques (dropna cs)))"
    by (simp add: comp_def)
  finally show ?thesis by (simp add: sum_counts_uniques)
qed


lemma cell_less_str: "is_str a \<Longrightarrow> is_str b \<Longrightarrow> cell_less a b \<longleftrightarrow> str_of a < str_of b"
  by (cases a; cases b) auto

lemma cell_less_num: "is_num a \<Longrightarrow> is_num b \<Longrightarrow> cell_less a b \<longleftrightarrow> num_of a < num_of b"
  by (cases a; cases b) auto

lemma inj_on_str_of: "\<forall>k\<in>set ks. is_str k \<Longrightarrow> inj_on str_of (set ks)"
proof (rule inj_onI)
  fix a b assume "\<forall>k\<in>set ks. is_str k" "a \<in> set ks" "b \<in> set ks" "str_of a = str_of b"
  then show "a = b" by (cases a; cases b) auto
qed

lemma inj_on_num_of: "\<forall>k\<in>set ks. is_num k \<Longrightarrow> inj_on num_of (set ks)"
proof (rule inj_onI)
  fix a b assume "\<forall>k\<in>set ks. is_num k" "a \<in> set ks" "b \<in> set ks" "num_of a = num_of b"
  then show "a = b" by (cases a; cases b) auto
qed

lemma sorted_keys_cell_less:
  fixes key :: "cell \<Rightarrow> 'k :: linorder"
  assumes "sorted (map key ks)" and "distinct ks" and "inj_on key (set ks)"
    and "\<And>a b. a \<in> set ks \<Longrightarrow> b \<in> set ks \<Longrightarrow> key a < key b \<Longrightarrow> cell_less a b"
  shows "sorted_wrt cell_less ks"
proof -
  have "distinct (map key ks)" using assms(2,3) by (simp add: distinct_map)
  then have "sorted_wrt (<) (map key ks)" using assms(1) by (simp add: strict_sorted_iff)
  then have "sorted_wrt (\<lambda>a b. key a < key b) ks" by (simp add: sorted_wrt_map)
  then show ?thesis by (rule sorted_wrt_mono_rel[rotated]) (use assms(4) in blast)
qed

lemma sort_index_sorted:
  assumes kinds: "list_all is_str (map fst X) \<or> list_all is_num (map fst X)"
    and dist: "distinct (map fst X)"
  shows "\<exists>R. sort_index \<lparr>columns = c, rows = X\<rparr> = Inr \<lparr>columns = c, rows = R\<rparr> \<and>
             mset R = mset X \<and> sorted_wrt cell_less (map fst R)"
proof (cases "list_all is_str (map fst X)")
  case True
  define R where "R = sort_key (\<lambda>(k, r). str_of k) X"
  have m: "mset R = mset X" by (simp add: R_def)
  have "mset (map fst R) = mset (map fst X)" using m by (metis mset_map)
  then have d: "distinct (map fst R)" and s: "set (map fst R) = set (map fst X)"
    using dist by (metis mset_eq_imp_distinct_iff, metis mset_eq_setD)
  have str: "\<forall>k\<in>set (map fst R). is_str k"
    using True unfolding s by (simp add: list_all_iff)
  have "sorted (map (\<lambda>(k, r). str_of k) R)" unfolding R_def by (rule sorted_sort_key)
  moreover have "map (\<lambda>(k, r). str_of k) R = map str_of (map fst R)"
    by (simp add: case_prod_unfold)
  ultimately have "sorted (map str_of (map fst R))" by simp
  then have "sorted_wrt cell_less (map fst R)"
    using d inj_on_str_of[OF str] str cell_less_str
    by (intro sorted_keys_cell_less[where key = str_of]) auto
  moreover have "sort_index \<lparr>columns = c, rows = X\<rparr> = Inr \<lparr>columns = c, rows = R\<rparr>"
    using True by (simp add: sort_index_def R_def list_all_iff case_prod_unfold)
  ultimately show ?thesis using m by blast
next
  case False
  then have num: "list_all is_num (map fst X)" using kinds by blast
  define R where "R = sort_key (\<lambda>(k, r). num_of k) X"
  have m: "mset R = mset X" by (simp add: R_def)
  have "mset (map fst R) = mset (map fst X)" using m by (metis mset_map)
  then have d: "distinct (map fst R)" and s: "set (map fst R) = set (map fst X)"
    using dist by (metis mset_eq_imp_distinct_iff, metis mset_eq_setD)
  have nums: "\<forall>k\<in>set (map fst R). is_num k"
    using num unfolding s by (simp add: list_all_iff)
  have "sorted (map (\<lambda>(k, r). num_of k) R)" unfolding R_def by (rule sorted_sort_key)
  moreover have "map (\<lambda>(k, r). num_of k) R = map num_of (map fst R)"
    by (simp add: case_prod_unfold)
  ultimately have "sorted (map num_of (map fst R))" by simp
  then have "sorted_wrt cell_less (map fst R)"
    using d inj_on_num_of[OF nums] nums cell_less_num
    by (intro sorted_keys_cell_less[where key = num_of]) auto
  moreover have "sort_index \<lparr>columns = c, rows = X\<rparr> = Inr \<lparr>columns = c, rows = R\<rparr>"
    using False num by (auto simp: sort_index_def R_def list_all_iff case_prod_unfold)
  ultimately show ?thesis using m by blast
qed

subsection \<open>Rounding errors\<close>

lemma round_half_even_error: "\<bar>of_int (round_half_even y) - y\<bar> \<le> 1 / 2"
proof -
  have "of_int \<lfloor>y\<rfloor> \<le> y" "y < of_int \<lfloor>y\<rfloor> + 1" by linarith+
  then show ?thesis
    by (auto simp: round_half_even_def Let_def abs_le_iff)
qed

lemma bitlen_powi:
  assumes "0 < a"
  shows "(2::rat) powi (bitlen a - 1) \<le> of_int a" and "of_int a < (2::rat) powi bitlen a"
proof -
  from bitlen_bounds[OF assms] have l: "2 ^ nat (bitlen a - 1) \<le> a" and u: "a < 2 ^ nat (bitlen a)"
    by simp_all
  have pos: "1 \<le> bitlen a" using assms by (simp add: bitlen_alt_def)
  have "(2::rat) powi (bitlen a - 1) = 2 ^ nat (bitlen a - 1)"
    using pos by (simp add: power_int_def)
  also have "\<dots> = of_int (2 ^ nat (bitlen a - 1))" by simp
  also have "\<dots> \<le> of_int a" using l by (simp only: of_int_le_iff)
  finally show "(2::rat) powi (bitlen a - 1) \<le> of_int a" .
  have "(of_int a :: rat) < of_int (2 ^ nat (bitlen a))" using u by (simp only: of_int_less_iff)
  also have "\<dots> = 2 ^ nat (bitlen a)" by simp
  also have "\<dots> = (2::rat) powi bitlen a" using pos by (simp add: power_int_def)
  finally show "of_int a < (2::rat) powi bitlen a" .
qed

lemma binade_bounds:
  assumes "0 < x"
  shows "2 powi binade x \<le> x" and "x < 2 powi (binade x + 1)"
proof -
  obtain a b where q: "quotient_of x = (a, b)" by (cases "quotient_of x")
  then have b: "0 < b" using quotient_of_denom_pos by blast
  have x: "x = of_int a / of_int b" using q by (rule quotient_of_div)
  have a: "0 < a" using assms b x by (simp add: zero_less_divide_iff)
  define k where "k = bitlen a - bitlen b"
  note A = bitlen_powi[OF a] and B = bitlen_powi[OF b]
  have bpos: "(0::rat) < of_int b" using b by simp
  have "x < 2 powi bitlen a / 2 powi (bitlen b - 1)"
    unfolding x using A(2) B(1) a bpos
    by (intro frac_less) (simp_all add: zero_less_power_int)
  also have "\<dots> = 2 powi (k + 1)"
    by (simp add: k_def power_int_diff[symmetric] algebra_simps)
  finally have up: "x < 2 powi (k + 1)" .
  have "(2::rat) powi (k - 1) = 2 powi (bitlen a - 1) / 2 powi bitlen b"
    by (simp add: k_def power_int_diff[symmetric] algebra_simps)
  also have "\<dots> < x"
    unfolding x using A(1) B(2) a bpos
    by (intro frac_less2) (simp_all add: zero_less_power_int)
  finally have lo: "2 powi (k - 1) < x" .
  have bin: "binade x = (if 2 powi k \<le> x then k else k - 1)"
    by (simp add: binade_def q k_def)
  show "2 powi binade x \<le> x" using lo by (simp add: bin)
  show "x < 2 powi (binade x + 1)" using up by (auto simp: bin not_le)
qed

lemma float64_error: "\<bar>float64 x - x\<bar> \<le> \<bar>x\<bar> / 2 ^ 53"
proof (cases "x = 0")
  case True
  then show ?thesis by (simp add: float64_def)
next
  case False
  define k where "k = binade \<bar>x\<bar>"
  define s :: rat where "s = 2 powi (k - 52)"
  define m where "m = round_half_even (\<bar>x\<bar> / s)"
  have spos: "0 < s" by (simp add: s_def zero_less_power_int)
  have f: "float64 x = sgn x * of_int m * s"
    using False by (simp add: float64_def m_def s_def k_def Let_def)
  have "(of_int m - \<bar>x\<bar> / s) * s = of_int m * s - \<bar>x\<bar>"
    using spos by (simp add: algebra_simps)
  then have "sgn x * ((of_int m - \<bar>x\<bar> / s) * s) = sgn x * of_int m * s - sgn x * \<bar>x\<bar>"
    by (simp add: algebra_simps)
  then have "float64 x - x = sgn x * ((of_int m - \<bar>x\<bar> / s) * s)"
    by (simp add: f sgn_mult_abs)
  then have "\<bar>float64 x - x\<bar> = \<bar>of_int m - \<bar>x\<bar> / s\<bar> * s"
    using False spos by (simp add: abs_mult abs_sgn_eq)
  also have "\<dots> \<le> 1 / 2 * s"
    using round_half_even_error[of "\<bar>x\<bar> / s"] spos unfolding m_def
    by (intro mult_right_mono) simp_all
  also have "\<dots> = 2 powi k / 2 ^ 53"
    by (simp add: s_def power_int_diff)
  also have "\<dots> \<le> \<bar>x\<bar> / 2 ^ 53"
    using binade_bounds(1)[of "\<bar>x\<bar>"] False by (simp add: k_def divide_right_mono)
  finally show ?thesis .
qed



lemma float64_bounds:
  assumes "0 \<le> x"
  shows "x * ulp_lo \<le> float64 x" and "float64 x \<le> x * ulp_hi"
proof -
  define d where "d = x / 2 ^ 53"
  have e: "\<bar>float64 x - x\<bar> \<le> d"
    using float64_error[of x] assms by (simp add: d_def)
  have "x * ulp_lo = x - d" "x * ulp_hi = x + d"
    by (simp_all add: ulp_lo_def ulp_hi_def d_def algebra_simps)
  with e show "x * ulp_lo \<le> float64 x" and "float64 x \<le> x * ulp_hi"
    by linarith+
qed

lemma ulp_pos: "0 < ulp_lo" "0 < ulp_hi" "0 \<le> ulp_lo" "0 \<le> ulp_hi"
  by (simp_all add: ulp_lo_def ulp_hi_def)

lemma float64_nonneg: "0 \<le> x \<Longrightarrow> 0 \<le> float64 x"
  using float64_bounds(1)[of x] ulp_pos(3) by (meson mult_nonneg_nonneg order_trans)

lemma float64_pos: "0 < x \<Longrightarrow> 0 < float64 x"
  using float64_bounds(1)[of x] ulp_pos(1) by (meson less_le_trans mult_pos_pos less_imp_le)

lemma float_percentage_bounds:
  assumes n: "0 < n"
  shows "of_nat c / of_nat n * 100 * (ulp_lo ^ 3 / ulp_hi) \<le> float_percentage c n"
    and "float_percentage c n \<le> of_nat c / of_nat n * 100 * (ulp_hi ^ 3 / ulp_lo)"
proof -
  define a :: rat where "a = of_nat c"
  define b :: rat where "b = of_nat n"
  define A where "A = float64 a"
  define B where "B = float64 b"
  define Q where "Q = float64 (A / B)"
  define E where "E = float64 (Q * 100)"
  have a0: "0 \<le> a" and b0: "0 < b" using n by (simp_all add: a_def b_def)
  note lo = ulp_pos(1) and hi = ulp_pos(2)
  have A: "a * ulp_lo \<le> A" "A \<le> a * ulp_hi" and A0: "0 \<le> A"
    unfolding A_def using float64_bounds[OF a0] float64_nonneg[OF a0] by simp_all
  have B: "b * ulp_lo \<le> B" "B \<le> b * ulp_hi" and B0: "0 < B"
    unfolding B_def using float64_bounds[of b] float64_pos[OF b0] b0 by simp_all
  have blo: "0 < b * ulp_lo" using b0 lo by simp
  have AB0: "0 \<le> A / B" using A0 B0 by simp
  have AB_hi: "A / B \<le> a * ulp_hi / (b * ulp_lo)"
    using A(2) B(1) blo a0 hi by (intro frac_le) simp_all
  have AB_lo: "a * ulp_lo / (b * ulp_hi) \<le> A / B"
    using A(1) B(2) B0 A0 a0 lo by (intro frac_le) simp_all
  have Q: "A / B * ulp_lo \<le> Q" "Q \<le> A / B * ulp_hi" and Q0: "0 \<le> Q"
    unfolding Q_def using float64_bounds[OF AB0] float64_nonneg[OF AB0] by simp_all
  have Q100: "0 \<le> Q * 100" using Q0 by simp
  have E: "Q * 100 * ulp_lo \<le> E" "E \<le> Q * 100 * ulp_hi"
    unfolding E_def using float64_bounds[OF Q100] by simp_all
  have "E \<le> Q * 100 * ulp_hi" by (rule E(2))
  also have "\<dots> \<le> (A / B * ulp_hi) * 100 * ulp_hi"
    using Q(2) hi by (intro mult_right_mono) simp_all
  also have "\<dots> \<le> (a * ulp_hi / (b * ulp_lo) * ulp_hi) * 100 * ulp_hi"
    using AB_hi hi by (intro mult_right_mono) simp_all
  also have "\<dots> = a / b * 100 * (ulp_hi ^ 3 / ulp_lo)"
    by (simp add: power3_eq_cube)
  finally have up: "E \<le> a / b * 100 * (ulp_hi ^ 3 / ulp_lo)" .
  have "a / b * 100 * (ulp_lo ^ 3 / ulp_hi) = (a * ulp_lo / (b * ulp_hi) * ulp_lo) * 100 * ulp_lo"
    by (simp add: power3_eq_cube)
  also have "\<dots> \<le> (A / B * ulp_lo) * 100 * ulp_lo"
    using AB_lo lo by (intro mult_right_mono) simp_all
  also have "\<dots> \<le> Q * 100 * ulp_lo"
    using Q(1) lo by (intro mult_right_mono) simp_all
  also have "\<dots> \<le> E" by (rule E(1))
  finally have down: "a / b * 100 * (ulp_lo ^ 3 / ulp_hi) \<le> E" .
  have "float_percentage c n = E"
    by (simp add: float_percentage_def E_def Q_def A_def B_def a_def b_def)
  with up down show "of_nat c / of_nat n * 100 * (ulp_lo ^ 3 / ulp_hi) \<le> float_percentage c n"
    and "float_percentage c n \<le> of_nat c / of_nat n * 100 * (ulp_hi ^ 3 / ulp_lo)"
    by (simp_all add: a_def b_def)
qed

lemma tolerance_hi: "100 * (ulp_hi ^ 3 / ulp_lo) \<le> 100 + 1 / 10 ^ 12"
  unfolding ulp_hi_def ulp_lo_def by (simp add: power3_eq_cube)

lemma tolerance_lo: "100 - 1 / 10 ^ 12 \<le> 100 * (ulp_lo ^ 3 / ulp_hi)"
  unfolding ulp_hi_def ulp_lo_def by (simp add: power3_eq_cube)

lemma float_percentage_close:
  assumes "0 < n" and "c \<le> n"
  shows "\<bar>float_percentage c n - of_nat c / of_nat n * 100\<bar> \<le> 1 / 10 ^ 12"
proof -
  define p :: rat where "p = of_nat c / of_nat n"
  have p: "0 \<le> p" "p \<le> 1" using assms by (simp_all add: p_def)
  have "float_percentage c n \<le> p * (100 * (ulp_hi ^ 3 / ulp_lo))"
    using float_percentage_bounds(2)[OF assms(1), of c] by (simp add: p_def algebra_simps)
  also have "\<dots> \<le> p * (100 + 1 / 10 ^ 12)"
    using tolerance_hi p(1) by (intro mult_left_mono)
  also have "\<dots> \<le> p * 100 + 1 / 10 ^ 12"
    using p(2) by (simp add: algebra_simps)
  finally have up: "float_percentage c n \<le> p * 100 + 1 / 10 ^ 12" .
  have "p * 100 - 1 / 10 ^ 12 \<le> p * (100 - 1 / 10 ^ 12)"
    using p(2) by (simp add: algebra_simps)
  also have "\<dots> \<le> p * (100 * (ulp_lo ^ 3 / ulp_hi))"
    using tolerance_lo p(1) by (intro mult_left_mono)
  also have "\<dots> \<le> float_percentage c n"
    using float_percentage_bounds(1)[OF assms(1), of c] by (simp add: p_def algebra_simps)
  finally have down: "p * 100 - 1 / 10 ^ 12 \<le> float_percentage c n" .
  from up down have "\<bar>float_percentage c n - p * 100\<bar> \<le> 1 / 10 ^ 12"
    by linarith
  then show ?thesis by (simp only: p_def)
qed

subsection \<open>The distribution of the outcome\<close>

lemma unsorted_perc_rows:
  "rows (times_100 (to_frame name (value_counts_normalize cs)))
     = map (\<lambda>(k, n). (k, [NumCell (float_percentage n (length (dropna cs)))]))
         (value_counts cs)"
  by (simp add: times_100_def to_frame_def value_counts_normalize_def Let_def
      total_value_counts case_prod_unfold comp_def float_percentage_def)

lemma mset_unsorted_perc_rows:
  "mset (rows (times_100 (to_frame name (value_counts_normalize cs))))
     = mset (map (perc_entry (dropna cs)) (uniques (dropna cs)))"
proof -
  let ?g = "\<lambda>(k, n). (k, [NumCell (float_percentage n (length (dropna cs)))])"
  have "mset (map ?g (value_counts cs))
      = mset (map ?g (map (\<lambda>k. (k, count_list (dropna cs) k)) (uniques (dropna cs))))"
    using mset_value_counts[of cs] by (metis mset_map)
  also have "\<dots> = mset (map (perc_entry (dropna cs)) (uniques (dropna cs)))"
    by (simp add: perc_entry_def[abs_def] comp_def)
  finally show ?thesis by (simp add: unsorted_perc_rows)
qed

lemma sum_shares:
  assumes "vals \<noteq> []"
  shows "(\<Sum>k\<leftarrow>uniques vals. of_nat (count_list vals k) / of_nat (length vals) * 100 * K)
           = 100 * (K :: rat)"
proof -
  have "(\<Sum>k\<leftarrow>uniques vals. of_nat (count_list vals k) / of_nat (length vals) * 100 * K)
      = (\<Sum>k\<in>set vals. of_nat (count_list vals k) / of_nat (length vals) * 100 * K)"
    by (simp add: sum_list_distinct_conv_sum_set[OF distinct_uniques] set_uniques)
  also have "\<dots> = (\<Sum>k\<in>set vals. of_nat (count_list vals k)) / of_nat (length vals) * 100 * K"
    by (simp add: sum_divide_distrib sum_distrib_right)
  also have "(\<Sum>k\<in>set vals. (of_nat (count_list vals k) :: rat)) = of_nat (length vals)"
    using sum_count_set[of vals "set vals"] by (metis List.finite_set of_nat_sum order_refl)
  finally show ?thesis using assms by simp
qed

lemma sum_float_percentages:
  assumes "vals \<noteq> []"
  shows "\<bar>(\<Sum>k\<leftarrow>uniques vals. float_percentage (count_list vals k) (length vals)) - 100\<bar>
           \<le> 1 / 10 ^ 12"
proof -
  have n: "0 < length vals" using assms by simp
  let ?S = "\<Sum>k\<leftarrow>uniques vals. float_percentage (count_list vals k) (length vals)"
  have "?S \<le> (\<Sum>k\<leftarrow>uniques vals.
      of_nat (count_list vals k) / of_nat (length vals) * 100 * (ulp_hi ^ 3 / ulp_lo))"
    by (intro sum_list_mono float_percentage_bounds(2)[OF n])
  also have "\<dots> = 100 * (ulp_hi ^ 3 / ulp_lo)" by (rule sum_shares[OF assms])
  also have "\<dots> \<le> 100 + 1 / 10 ^ 12" by (rule tolerance_hi)
  finally have up: "?S \<le> 100 + 1 / 10 ^ 12" .
  have "100 - 1 / 10 ^ 12 \<le> 100 * (ulp_lo ^ 3 / ulp_hi)" by (rule tolerance_lo)
  also have "\<dots> = (\<Sum>k\<leftarrow>uniques vals.
      of_nat (count_list vals k) / of_nat (length vals) * 100 * (ulp_lo ^ 3 / ulp_hi))"
    by (rule sum_shares[OF assms, symmetric])
  also have "\<dots> \<le> ?S"
    by (intro sum_list_mono float_percentage_bounds(1)[OF n])
  finally have down: "100 - 1 / 10 ^ 12 \<le> ?S" .
  from up down show ?thesis by linarith
qed

lemma sort_index_Inr_kinds:
  assumes "sort_index f = Inr d"
  shows "list_all is_str (map fst (rows f)) \<or> list_all is_num (map fst (rows f))"
  using assms
  by (auto simp: sort_index_def list_all_iff case_prod_unfold split: if_splits)

lemma num_values_map_NumCell: "num_values (map (\<lambda>k. NumCell (f k)) ks) = map f ks"
  by (induction ks) simp_all

text \<open>
  Claim C4, as amended. For a table whose column \<open>y\<close> has at least one value that is not
  missing, the computed distribution is a table with the one column \<open>percentage\<close>: it has
  one entry for each distinct present value, which is the count of that value divided by
  the number of present values, times 100, as floating-point arithmetic gives it, and
  differs from the exact percentage by at most \<open>1 / 10 ^ 12\<close>; the entries sum to 100
  within that tolerance; and the labels are in strictly ascending order of value, whatever
  the frequencies are. The distribution is computed when the present values are all texts
  or all numbers.
\<close>

theorem distribution_sums_to_100_and_is_sorted:
  assumes y: "column_cells t ''y'' = Inr ys"
    and present: "dropna ys \<noteq> []"
  shows "(list_all is_str (dropna ys) \<or> list_all is_num (dropna ys) \<longrightarrow>
            (\<exists>d. target_perc t = Inr d)) \<and>
         (\<forall>d. target_perc t = Inr d \<longrightarrow>
            columns d = [''percentage''] \<and>
            distinct (labels d) \<and> set (labels d) = set (dropna ys) \<and>
            percentages d =
              map (\<lambda>k. NumCell (float_percentage (count_list (dropna ys) k) (length (dropna ys))))
                (labels d) \<and>
            (\<forall>k \<in> set (labels d).
               \<bar>float_percentage (count_list (dropna ys) k) (length (dropna ys))
                  - of_nat (count_list (dropna ys) k) / of_nat (length (dropna ys)) * 100\<bar>
                 \<le> 1 / 10 ^ 12) \<and>
            \<bar>sum_list (num_values (percentages d)) - 100\<bar> \<le> 1 / 10 ^ 12 \<and>
            sorted_wrt cell_less (labels d))"
proof -
  define vals where "vals = dropna ys"
  define pct where "pct k = float_percentage (count_list vals k) (length vals)" for k
  define X where "X = rows (times_100 (to_frame ''y'' (value_counts_normalize ys)))"
  have n: "0 < length vals" using present by (simp add: vals_def)
  have mX: "mset X = mset (map (perc_entry vals) (uniques vals))"
    unfolding X_def vals_def by (rule mset_unsorted_perc_rows)
  have "mset (map fst X) = mset (map fst (map (perc_entry vals) (uniques vals)))"
    using mX by (metis mset_map)
  then have mk: "mset (map fst X) = mset (uniques vals)"
    by (simp add: comp_def perc_entry_def)
  have dX: "distinct (map fst X)"
    using mset_eq_imp_distinct_iff[OF mk] distinct_uniques by blast
  have sX: "set (map fst X) = set vals"
    using mset_eq_setD[OF mk] by (simp only: set_uniques)
  have frame: "set_columns (times_100 (to_frame ''y'' (value_counts_normalize ys))) [''percentage'']
      = Inr \<lparr>columns = [''percentage''], rows = X\<rparr>"
    by (simp add: set_columns_def X_def times_100_def to_frame_def)
  have tp: "target_perc t = sort_index \<lparr>columns = [''percentage''], rows = X\<rparr>"
    by (simp add: target_perc_def bindE_def y frame)
  have computed: "\<exists>d. target_perc t = Inr d"
    if "list_all is_str vals \<or> list_all is_num vals"
  proof -
    have "list_all is_str (map fst X) \<or> list_all is_num (map fst X)"
      using that unfolding list_all_iff sX by blast
    from sort_index_sorted[OF this dX] show ?thesis unfolding tp by blast
  qed
  have props: "columns d = [''percentage''] \<and>
      distinct (labels d) \<and> set (labels d) = set vals \<and>
      percentages d = map (\<lambda>k. NumCell (pct k)) (labels d) \<and>
      (\<forall>k \<in> set (labels d).
         \<bar>pct k - of_nat (count_list vals k) / of_nat (length vals) * 100\<bar> \<le> 1 / 10 ^ 12) \<and>
      \<bar>sum_list (num_values (percentages d)) - 100\<bar> \<le> 1 / 10 ^ 12 \<and>
      sorted_wrt cell_less (labels d)"
    if d: "target_perc t = Inr d" for d
  proof -
    have si: "sort_index \<lparr>columns = [''percentage''], rows = X\<rparr> = Inr d"
      using d tp by simp
    have kX: "list_all is_str (map fst X) \<or> list_all is_num (map fst X)"
      using sort_index_Inr_kinds[OF si] by simp
    obtain R where R: "sort_index \<lparr>columns = [''percentage''], rows = X\<rparr>
          = Inr \<lparr>columns = [''percentage''], rows = R\<rparr>"
      and mR: "mset R = mset X" and sorted: "sorted_wrt cell_less (map fst R)"
      using sort_index_sorted[OF kX dX] by blast
    have dR: "d = \<lparr>columns = [''percentage''], rows = R\<rparr>" using si R by simp
    have ld: "labels d = map fst R" by (simp add: labels_def dR)
    have cd: "columns d = [''percentage'']" by (simp add: dR)
    have "mset (map fst R) = mset (map fst X)" using mR by (metis mset_map)
    then have mfst: "mset (labels d) = mset (uniques vals)"
      using mk ld by simp
    have dl: "distinct (labels d)"
      using mset_eq_imp_distinct_iff[OF mfst] distinct_uniques by blast
    have sl: "set (labels d) = set vals"
      using mset_eq_setD[OF mfst] by (simp only: set_uniques)
    have entries: "snd x = [NumCell (pct (fst x))]" if "x \<in> set R" for x
    proof -
      have "set R = set (map (perc_entry vals) (uniques vals))"
        using mR mX by (metis mset_eq_setD)
      with that have "x \<in> perc_entry vals ` set (uniques vals)" by simp
      then obtain k where "x = perc_entry vals k" by blast
      then show ?thesis by (simp add: perc_entry_def pct_def)
    qed
    have "percentages d = map (\<lambda>x. NumCell (pct (fst x))) R"
      unfolding percentages_def dR
      by (simp add: row_value_def cell_at_def case_prod_unfold entries)
    then have pc: "percentages d = map (\<lambda>k. NumCell (pct k)) (labels d)"
      by (simp add: ld comp_def)
    have close: "\<bar>pct k - of_nat (count_list vals k) / of_nat (length vals) * 100\<bar> \<le> 1 / 10 ^ 12"
      for k
      unfolding pct_def by (rule float_percentage_close[OF n count_le_length])
    have "sum_list (num_values (percentages d)) = sum_list (map pct (labels d))"
      unfolding pc by (simp only: num_values_map_NumCell)
    also have "\<dots> = sum_list (map pct (uniques vals))"
      by (rule sum_list_mset_cong[OF mfst])
    finally have "sum_list (num_values (percentages d))
        = (\<Sum>k\<leftarrow>uniques vals. float_percentage (count_list vals k) (length vals))"
      by (simp add: pct_def[abs_def])
    then have total: "\<bar>sum_list (num_values (percentages d)) - 100\<bar> \<le> 1 / 10 ^ 12"
      using sum_float_percentages[of vals] present by (simp add: vals_def)
    have srt: "sorted_wrt cell_less (labels d)" using sorted by (simp add: ld)
    show ?thesis using cd dl sl pc close total srt by blast
  qed
  show ?thesis
    using computed props unfolding pct_def vals_def by blast
qed

theorem distribution_sums_to_100_and_is_sorted_witness:
  "column_cells example_bank ''y'' = Inr [StrCell ''yes'', StrCell ''no'', StrCell ''no''] \<and>
   dropna [StrCell ''yes'', StrCell ''no'', StrCell ''no''] \<noteq> [] \<and>
   list_all is_str (dropna [StrCell ''yes'', StrCell ''no'', StrCell ''no'']) \<and>
   (\<exists>d. target_perc example_bank = Inr d) \<and>
   target_perc example_bank
     = Inr \<lparr>columns = [''percentage''],
            rows = [(StrCell ''no'', [NumCell (2345624805922133 / 2 ^ 45)]),
                    (StrCell ''yes'', [NumCell (2345624805922133 / 2 ^ 46)])]\<rparr> \<and>
   sum_list (num_values (percentages
       \<lparr>columns = [''percentage''],
        rows = [(StrCell ''no'', [NumCell (2345624805922133 / 2 ^ 45)]),
                (StrCell ''yes'', [NumCell (2345624805922133 / 2 ^ 46)])]\<rparr>))
     = 7036874417766399 / 2 ^ 46 \<and>
   \<bar>sum_list (num_values (percentages
       \<lparr>columns = [''percentage''],
        rows = [(StrCell ''no'', [NumCell (2345624805922133 / 2 ^ 45)]),
                (StrCell ''yes'', [NumCell (2345624805922133 / 2 ^ 46)])]\<rparr>)) - 100\<bar>
     \<le> 1 / 10 ^ 12 \<and>
   sorted_wrt cell_less (labels
       \<lparr>columns = [''percentage''],
        rows = [(StrCell ''no'', [NumCell (2345624805922133 / 2 ^ 45)]),
                (StrCell ''yes'', [NumCell (2345624805922133 / 2 ^ 46)])]\<rparr>)"
proof -
  let ?d = "\<lparr>columns = [''percentage''],
        rows = [(StrCell ''no'', [NumCell (2345624805922133 / 2 ^ 45)]),
                (StrCell ''yes'', [NumCell (2345624805922133 / 2 ^ 46)])]\<rparr>"
  have a: "column_cells example_bank ''y'' = Inr [StrCell ''yes'', StrCell ''no'', StrCell ''no'']"
    by (simp add: column_cells_def cell_at_def example_bank_def example_columns_def)
  have b: "dropna [StrCell ''yes'', StrCell ''no'', StrCell ''no''] \<noteq> []"
    by (simp add: dropna_def)
  have f1: "float64 (float64 (float64 1 / float64 3) * 100) = 2345624805922133 / 2 ^ 46"
    by code_simp
  have f2: "float64 (float64 (float64 2 / float64 3) * 100) = 2345624805922133 / 2 ^ 45"
    by code_simp
  have e: "target_perc example_bank = Inr ?d"
    by (simp add: target_perc_def bindE_def a value_counts_normalize_def value_counts_def
        dropna_def to_frame_def times_100_def set_columns_def sort_index_def f1 f2)
  have c: "list_all is_str (dropna [StrCell ''yes'', StrCell ''no'', StrCell ''no''])"
    by (simp add: dropna_def)
  from distribution_sums_to_100_and_is_sorted[OF a b] c
  have ex: "\<exists>d. target_perc example_bank = Inr d"
    by blast
  from distribution_sums_to_100_and_is_sorted[OF a b] e
  have "\<bar>sum_list (num_values (percentages ?d)) - 100\<bar> \<le> 1 / 10 ^ 12"
    and "sorted_wrt cell_less (labels ?d)"
    by blast+
  moreover have "sum_list (num_values (percentages ?d)) = 7036874417766399 / 2 ^ 46"
    by (simp add: percentages_def row_value_def cell_at_def)
  ultimately show ?thesis using a b c ex e by simp
qed

text \<open>
  A table whose outcomes are all blank is not empty and has the column \<open>y\<close>; its
  distribution is computed and has no entry, so its entries sum to 0.
\<close>

theorem blank_outcome_distribution_is_empty:
  "rows example_blank_outcome \<noteq> [] \<and>
   ''y'' \<in> set (columns example_blank_outcome) \<and>
   target_perc example_blank_outcome = Inr \<lparr>columns = [''percentage''], rows = []\<rparr> \<and>
   sum_list (num_values (percentages \<lparr>columns = [''percentage''], rows = []\<rparr>)) \<noteq> 100"
  by (simp add: target_perc_def bindE_def column_cells_def cell_at_def
      value_counts_normalize_def value_counts_def dropna_def to_frame_def times_100_def
      set_columns_def sort_index_def percentages_def example_blank_outcome_def
      example_columns_def)

subsection \<open>A table without the outcome column\<close>





subsection \<open>A filtered table without rows\<close>

text \<open>
  Claim C5, as amended. For a filtered table with no rows that has the column \<open>y\<close>, the
  distribution step is not skipped: it computes the percentage table, which has the column
  \<open>percentage\<close> and no entry, and shows it under its heading. Nothing is divided, and no
  other message is reported.
\<close>
theorem empty_table_distribution_is_computed:
  assumes "rows t = []" and "''y'' \<in> set (columns t)"
  shows "target_perc t = Inr \<lparr>columns = [''percentage''], rows = []\<rparr> \<and>
         filtered_perc_step t =
           Inr ([Write ''### Bank Target Perc:'',
                 WritePerc \<lparr>columns = [''percentage''], rows = []\<rparr>],
                Some \<lparr>columns = [''percentage''], rows = []\<rparr>)"
proof -
  obtain j where "col_index (columns t) ''y'' = Some j"
    using assms(2) col_index_Some_iff by blast
  then have "target_perc t = Inr \<lparr>columns = [''percentage''], rows = []\<rparr>"
    using assms(1)
    by (simp add: target_perc_def bindE_def column_cells_def value_counts_normalize_def
        value_counts_def dropna_def to_frame_def times_100_def set_columns_def sort_index_def)
  then show ?thesis using assms(2) by (simp add: filtered_perc_step_def)
qed

theorem empty_table_distribution_is_computed_witness:
  "rows example_no_rows = [] \<and> ''y'' \<in> set (columns example_no_rows) \<and>
   filtered_perc_step example_no_rows =
     Inr ([Write ''### Bank Target Perc:'',
           WritePerc \<lparr>columns = [''percentage''], rows = []\<rparr>],
          Some \<lparr>columns = [''percentage''], rows = []\<rparr>)"
proof -
  have a: "rows example_no_rows = []" by (simp add: example_no_rows_def)
  have b: "''y'' \<in> set (columns example_no_rows)"
    by (simp add: example_no_rows_def example_bank_def example_columns_def)
  have c: "filtered_perc_step example_no_rows =
     Inr ([Write ''### Bank Target Perc:'',
           WritePerc \<lparr>columns = [''percentage''], rows = []\<rparr>],
          Some \<lparr>columns = [''percentage''], rows = []\<rparr>)"
    by (rule empty_table_distribution_is_computed[OF a b, THEN conjunct2])
  from a b c show ?thesis by simp
qed

text \<open>
  The step as the claim has it would show no computed table for a filtered table of no rows.
  Here a filter with an empty selection leaves no row, and the step shows the computed,
  empty table.
\<close>

theorem empty_filtered_table_not_skipped:
  "apply_filters example_bank ((select_all (25, 45))\<lparr>month_selected := []\<rparr>)
     = Inr example_no_rows \<and>
   rows example_no_rows = [] \<and>
   filtered_perc_step example_no_rows =
     Inr ([Write ''### Bank Target Perc:'',
           WritePerc \<lparr>columns = [''percentage''], rows = []\<rparr>],
          Some \<lparr>columns = [''percentage''], rows = []\<rparr>)"
  by (simp add: filtered_perc_step_def target_perc_def bindE_def column_cells_def
      value_counts_normalize_def value_counts_def dropna_def to_frame_def times_100_def
      set_columns_def sort_index_def example_no_rows_def run_defs)

subsection \<open>The sentinel \<open>all\<close>\<close>

text \<open>
  Claim C10. Whenever the selection list contains the text \<open>all\<close>, also next to other
  selected values, the categorical step returns the very table it was given, whatever the
  column and the other values are; so a cell whose value is the text \<open>all\<close> cannot be
  selected on its own.
\<close>

theorem all_sentinel_dominates:
  "StrCell ''all'' \<in> set selecionados \<Longrightarrow>
     multiselect_filter relatorio col selecionados = Inr relatorio"
  by (simp add: multiselect_filter_def)

theorem all_sentinel_dominates_witness:
  "StrCell ''all'' \<in> set [StrCell ''admin'', StrCell ''all''] \<and>
   multiselect_filter
     \<lparr>columns = [''age'', ''job''],
      rows = [(0, [NumCell 30, StrCell ''all'']), (1, [NumCell 50, StrCell ''technician''])]\<rparr>
     ''job'' [StrCell ''admin'', StrCell ''all'']
   = Inr \<lparr>columns = [''age'', ''job''],
      rows = [(0, [NumCell 30, StrCell ''all'']), (1, [NumCell 50, StrCell ''technician''])]\<rparr>"
  using all_sentinel_dominates
    [of "[StrCell ''admin'', StrCell ''all'']"
        "\<lparr>columns = [''age'', ''job''],
          rows = [(0, [NumCell 30, StrCell ''all'']), (1, [NumCell 50, StrCell ''technician''])]\<rparr>"
        "''job''"]
  by simp

end
